theory Spec2Isabelle
  imports Complex_Main "HOL-Library.Word" "HOL-Library.AList" "HOL-Library.List_Lexorder" "HOL-Library.Char_ord"
    "HOL-Library.Multiset"
begin

section \<open>Machine types of the Go sources\<close>

text \<open>
  Go's \<^verbatim>\<open>uint64\<close> is a 64-bit word whose arithmetic wraps around. Go's \<^verbatim>\<open>int\<close>
  (the type of \<^verbatim>\<open>runtime.NumGoroutine()\<close> and of the argument of \<^verbatim>\<open>SetSamplingRate\<close>) and
  \<^verbatim>\<open>int64\<close> are 64-bit words read as two's complement through \<open>sint\<close>.
  \<^verbatim>\<open>time.Time\<close> and \<^verbatim>\<open>time.Duration\<close> are counts of nanoseconds.
  \<^verbatim>\<open>float64\<close> values are modelled by the real numbers they denote: the functions below
  only compare them with constants, carry them around, or form one weighted sum.
\<close>

type_synonym uint64 = "64 word"
type_synonym go_int = "64 word"
type_synonym go_time = int
type_synonym float64 = real

section \<open>core/function-metrics.go: the sampling profiler\<close>

subsection \<open>Data\<close>

text \<open>\<^verbatim>\<open>models.FunctionMetrics\<close>, with the fields the profiler assigns.\<close>

record FunctionMetrics =
  FunctionLastRanAt :: go_time
  CPUProfileFilePath :: string
  MemProfileFilePath :: string
  MemoryUsage :: uint64
  GoroutineCount :: go_int
  ExecutionTime :: go_time

text \<open>Go types as \<^verbatim>\<open>reflect.Type\<close> shows them: by their \<^verbatim>\<open>String()\<close>.\<close>

type_synonym gotype = string

text \<open>What the profiler writes to the log (\<^verbatim>\<open>log.Printf\<close>), one constructor per message.\<close>

datatype logmsg =
    NotAFunction
  | ArgumentCountMismatch nat nat
  | ArgumentTypeMismatch nat gotype gotype
  | CPUProfileStartFailed

text \<open>The effects of the profiler on the outside, in the order they happen.\<close>

datatype event =
    Log logmsg
  | MkdirAll string
  | StartCPUProfile string
  | Invoke string
  | StopCPUProfile
  | WriteHeapProfile string

datatype panic = DivideByZero | NilDereference | ReflectTypeOfZeroValue | IndexOutOfRange

text \<open>
  The package variables. \<open>functionMetrics\<close> is a Go map from identities to pointers; the
  records live in \<open>heap\<close>, and \<open>nextAddr\<close> is the next address the allocator hands out.
  \<open>world\<close> is the state the traced callables work on.
\<close>

record 'w profiler =
  functionMetrics :: "(string \<times> nat) list"
  heap :: "nat \<rightharpoonup> FunctionMetrics"
  nextAddr :: nat
  basePath :: string
  samplingRate :: go_int
  callCounters :: "string \<rightharpoonup> uint64"
  events :: "event list"
  world :: 'w

text \<open>
  What one invocation reads from the runtime: the goroutine count before and after the
  call, \<^verbatim>\<open>MemStats.Alloc\<close> before and after, whether \<^verbatim>\<open>StartCPUProfile\<close> failed,
  \<^verbatim>\<open>time.Now()\<close> and \<^verbatim>\<open>time.Since(start)\<close>.
\<close>

record probe =
  goroutinesBefore :: go_int
  goroutinesAfter :: go_int
  allocBefore :: uint64
  allocAfter :: uint64
  cpuProfileFails :: bool
  startedAt :: go_time
  elapsedTime :: go_time

subsection \<open>Sampling configuration\<close>

text \<open>The package's initial state: empty tables, and \<^verbatim>\<open>init()\<close> has stored the rate 100.\<close>

definition init_profiler :: "string \<Rightarrow> 'w \<Rightarrow> 'w profiler" where
  "init_profiler base w =
     \<lparr>functionMetrics = [], heap = Map.empty, nextAddr = 0, basePath = base,
      samplingRate = 100, callCounters = Map.empty, events = [], world = w\<rparr>"

definition SetSamplingRate :: "go_int \<Rightarrow> 'w profiler \<Rightarrow> 'w profiler" where
  "SetSamplingRate rate s =
     (let rate = (if sint rate < 1 then 1 else rate)
      in s\<lparr>samplingRate := rate\<rparr>)"

subsection \<open>executeFunctionWithProfiling\<close>

definition emit :: "event list \<Rightarrow> 'w profiler \<Rightarrow> 'w profiler" where
  "emit es s = s\<lparr>events := events s @ es\<rparr>"

definition filepath_Join :: "string \<Rightarrow> string \<Rightarrow> string" where
  "filepath_Join dir file = dir @ ''/'' @ file"

definition cpuProfPath :: "'w profiler \<Rightarrow> string \<Rightarrow> string" where
  "cpuProfPath s name = filepath_Join (basePath s @ ''/profiles'') (name @ ''_cpu.prof'')"

definition memProfPath :: "'w profiler \<Rightarrow> string \<Rightarrow> string" where
  "memProfPath s name = filepath_Join (basePath s @ ''/profiles'') (name @ ''_mem.prof'')"

text \<open>Lines 191-194: \<^verbatim>\<open>callCounters[name]++; count := callCounters[name]\<close>.\<close>

definition nextCount :: "'w profiler \<Rightarrow> string \<Rightarrow> uint64" where
  "nextCount s name = (case callCounters s name of None \<Rightarrow> 0 | Some c \<Rightarrow> c) + 1"

text \<open>Lines 230-233: the goroutine delta, floored at zero.\<close>

definition goroutineDelta :: "probe \<Rightarrow> go_int" where
  "goroutineDelta pr =
     (let finalGoroutines = goroutinesAfter pr - goroutinesBefore pr
      in if sint finalGoroutines < 0 then 0 else finalGoroutines)"

text \<open>Lines 235-242: the allocation delta, zero unless the call is profiled.\<close>

definition memoryDelta :: "bool \<Rightarrow> probe \<Rightarrow> uint64" where
  "memoryDelta shouldProfile pr =
     (if shouldProfile \<and> allocBefore pr \<le> allocAfter pr
      then allocAfter pr - allocBefore pr else 0)"

text \<open>Lines 244-266: update the identity's record in place, or create it.\<close>

definition recordMetrics ::
  "string \<Rightarrow> bool \<Rightarrow> string \<Rightarrow> string \<Rightarrow> probe \<Rightarrow> 'w profiler \<Rightarrow> panic + 'w profiler" where
  "recordMetrics name shouldProfile cpuProfFilePath memProfFilePath pr s =
     (case map_of (functionMetrics s) name of
        Some p \<Rightarrow>
          (case heap s p of
             None \<Rightarrow> Inl NilDereference
           | Some m \<Rightarrow>
               (let m = m\<lparr>FunctionLastRanAt := startedAt pr,
                          ExecutionTime := elapsedTime pr,
                          GoroutineCount := goroutineDelta pr\<rparr>;
                    m = (if shouldProfile
                         then m\<lparr>MemoryUsage := memoryDelta shouldProfile pr,
                                CPUProfileFilePath := cpuProfFilePath,
                                MemProfileFilePath := memProfFilePath\<rparr>
                         else m)
                in Inr (s\<lparr>heap := (heap s)(p \<mapsto> m)\<rparr>)))
      | None \<Rightarrow>
          Inr (s\<lparr>functionMetrics := AList.update name (nextAddr s) (functionMetrics s),
                 heap := (heap s)(nextAddr s \<mapsto>
                   \<lparr>FunctionLastRanAt = startedAt pr,
                    CPUProfileFilePath = cpuProfFilePath,
                    MemProfileFilePath = memProfFilePath,
                    MemoryUsage = memoryDelta shouldProfile pr,
                    GoroutineCount = goroutineDelta pr,
                    ExecutionTime = elapsedTime pr\<rparr>),
                 nextAddr := Suc (nextAddr s)\<rparr>))"

text \<open>
  The whole function. The callable \<open>fn\<close> runs on \<open>world\<close> and hands back what its closure
  captured. \<^verbatim>\<open>count % uint64(rate)\<close> panics in Go when the rate is zero.
\<close>

definition executeFunctionWithProfiling ::
  "string \<Rightarrow> ('w \<Rightarrow> 'a \<times> 'w) \<Rightarrow> probe \<Rightarrow> 'w profiler \<Rightarrow> panic + ('a \<times> 'w profiler)" where
  "executeFunctionWithProfiling name fn pr s =
     (let count = nextCount s name;
          s = s\<lparr>callCounters := (callCounters s)(name \<mapsto> count)\<rparr>
      in if samplingRate s = 0 then Inl DivideByZero
         else
           let shouldProfile = (count mod samplingRate s = 0);
               cpuProfFilePath = (if shouldProfile then cpuProfPath s name else '''');
               memProfFilePath = (if shouldProfile then memProfPath s name else '''');
               s = (if shouldProfile
                    then emit ([MkdirAll (basePath s @ ''/profiles''), StartCPUProfile cpuProfFilePath]
                               @ (if cpuProfileFails pr then [Log CPUProfileStartFailed] else [])) s
                    else s);
               (res, w) = fn (world s);
               s = emit [Invoke name] (s\<lparr>world := w\<rparr>);
               s = (if shouldProfile
                    then emit [StopCPUProfile, WriteHeapProfile memProfFilePath] s
                    else s)
           in case recordMetrics name shouldProfile cpuProfFilePath memProfFilePath pr s of
                Inl e \<Rightarrow> Inl e
              | Inr s \<Rightarrow> Inr (res, s))"

text \<open>The record of an identity, read through the table and the heap.\<close>

definition metricsOf :: "'w profiler \<Rightarrow> string \<Rightarrow> FunctionMetrics option" where
  "metricsOf s name =
     (case map_of (functionMetrics s) name of None \<Rightarrow> None | Some p \<Rightarrow> heap s p)"

subsection \<open>FunctionTraceDetails\<close>

text \<open>
  The loop \<^verbatim>\<open>for k, v := range functionMetrics { copied := *v; result[k] = &copied }\<close>:
  every pass allocates a new record holding the value read through \<open>v\<close>.
\<close>

fun copyRecords ::
  "(string \<times> nat) list \<Rightarrow> (string \<times> nat) list \<Rightarrow> 'w profiler
   \<Rightarrow> panic + ((string \<times> nat) list \<times> 'w profiler)" where
  "copyRecords [] result s = Inr (result, s)"
| "copyRecords ((k, v) # rest) result s =
     (case heap s v of
        None \<Rightarrow> Inl NilDereference
      | Some copied \<Rightarrow>
          copyRecords rest (AList.update k (nextAddr s) result)
            (s\<lparr>heap := (heap s)(nextAddr s \<mapsto> copied), nextAddr := Suc (nextAddr s)\<rparr>))"

definition FunctionTraceDetails ::
  "'w profiler \<Rightarrow> panic + ((string \<times> nat) list \<times> 'w profiler)" where
  "FunctionTraceDetails s = copyRecords (functionMetrics s) [] s"

subsection \<open>The trace entry points\<close>

text \<open>
  A function value as reflection sees it: its runtime name
  (\<^verbatim>\<open>runtime.FuncForPC(..).Name()\<close>), its parameter and result types, and what a call does
  to the world. \<open>AssignableTo\<close> and \<open>TypeString\<close> are \<^verbatim>\<open>reflect.Type\<close>'s methods.
\<close>

record ('t, 'v, 'w) func =
  funcName :: string
  paramTypes :: "'t list"
  resultTypes :: "'t list"
  body :: "'v list \<Rightarrow> 'w \<Rightarrow> 'v list \<times> 'w"

record 't reflection =
  AssignableTo :: "'t \<Rightarrow> 't \<Rightarrow> bool"
  TypeString :: "'t \<Rightarrow> gotype"

definition strings_ReplaceAll_slash :: "string \<Rightarrow> string" where
  "strings_ReplaceAll_slash n = map (\<lambda>c. if c = CHR ''/'' then CHR ''-'' else c) n"

fun strings_Join :: "string list \<Rightarrow> string \<Rightarrow> string" where
  "strings_Join [] sep = []"
| "strings_Join [x] sep = x"
| "strings_Join (x # y # ys) sep = x @ sep @ strings_Join (y # ys) sep"

definition generateFunctionName :: "'t reflection \<Rightarrow> ('t, 'v, 'w) func \<Rightarrow> string" where
  "generateFunctionName rt fnValue =
     (let baseName = strings_ReplaceAll_slash (funcName fnValue);
          baseName =
            (if length (paramTypes fnValue) > 0
             then baseName @ ''('' @ strings_Join (map (TypeString rt) (paramTypes fnValue)) '','' @ '')''
             else baseName);
          baseName =
            (if length (resultTypes fnValue) > 0
             then baseName @ ''->('' @ strings_Join (map (TypeString rt) (resultTypes fnValue)) '','' @ '')''
             else baseName)
      in baseName)"

text \<open>
  \<^verbatim>\<open>TraceFunction(f func())\<close>: \<open>f\<close> is a function without parameters or results, given
  by its runtime name and its effect.
\<close>

definition TraceFunction ::
  "string \<Rightarrow> ('w \<Rightarrow> 'w) \<Rightarrow> probe \<Rightarrow> 'w profiler \<Rightarrow> panic + 'w profiler" where
  "TraceFunction fName f pr s =
     (let name = strings_ReplaceAll_slash fName
      in case executeFunctionWithProfiling name (\<lambda>w. ((), f w)) pr s of
           Inl e \<Rightarrow> Inl e
         | Inr (u, s) \<Rightarrow> Inr s)"

text \<open>
  The validation loop of the reflective entry points. An argument is \<open>None\<close> for a nil
  interface value (\<^verbatim>\<open>reflect.ValueOf(nil)\<close> is the zero Value, whose \<^verbatim>\<open>Type()\<close> panics),
  or its dynamic type with its value. The loop stops at the first argument that is not
  assignable, with the message it logs.
\<close>

datatype 'a checked = Panicked panic | Rejected logmsg | Accepted 'a

fun checkArgs ::
  "'t reflection \<Rightarrow> nat \<Rightarrow> ('t \<times> 'v) option list \<Rightarrow> 't list \<Rightarrow> 'v list checked" where
  "checkArgs rt i [] expected = Accepted []"
| "checkArgs rt i (arg # args) [] = Panicked IndexOutOfRange"
| "checkArgs rt i (None # args) (expectedType # expected) = Panicked ReflectTypeOfZeroValue"
| "checkArgs rt i (Some (argType, argValue) # args) (expectedType # expected) =
     (if \<not> AssignableTo rt argType expectedType
      then Rejected (ArgumentTypeMismatch i (TypeString rt expectedType) (TypeString rt argType))
      else case checkArgs rt (Suc i) args expected of
             Accepted argValues \<Rightarrow> Accepted (argValue # argValues)
           | Panicked e \<Rightarrow> Panicked e
           | Rejected msg \<Rightarrow> Rejected msg)"

text \<open>
  \<^verbatim>\<open>TraceFunctionWithReturns\<close>. \<open>f\<close> is \<open>None\<close> when the first argument is not of kind
  \<^verbatim>\<open>Func\<close>. The result is \<open>None\<close> for Go's nil slice.
\<close>

definition TraceFunctionWithReturns ::
  "'t reflection \<Rightarrow> ('t, 'v, 'w) func option \<Rightarrow> ('t \<times> 'v) option list \<Rightarrow> probe \<Rightarrow> 'w profiler
   \<Rightarrow> panic + ('v list option \<times> 'w profiler)" where
  "TraceFunctionWithReturns rt f args pr s =
     (case f of
        None \<Rightarrow> Inr (None, emit [Log NotAFunction] s)
      | Some fnValue \<Rightarrow>
          if length args \<noteq> length (paramTypes fnValue)
          then Inr (None, emit [Log (ArgumentCountMismatch (length (paramTypes fnValue)) (length args))] s)
          else
            (case checkArgs rt 0 args (paramTypes fnValue) of
               Panicked e \<Rightarrow> Inl e
             | Rejected msg \<Rightarrow> Inr (None, emit [Log msg] s)
             | Accepted argValues \<Rightarrow>
                 (let name = generateFunctionName rt fnValue
                  in executeFunctionWithProfiling name
                       (\<lambda>w. let (reflectResults, w) = body fnValue argValues w
                             in (Some reflectResults, w)) pr s)))"

definition TraceFunctionWithReturn ::
  "'t reflection \<Rightarrow> ('t, 'v, 'w) func option \<Rightarrow> ('t \<times> 'v) option list \<Rightarrow> probe \<Rightarrow> 'w profiler
   \<Rightarrow> panic + ('v option \<times> 'w profiler)" where
  "TraceFunctionWithReturn rt f args pr s =
     (case TraceFunctionWithReturns rt f args pr s of
        Inl e \<Rightarrow> Inl e
      | Inr (results, s) \<Rightarrow>
          (case results of
             Some (r # rs) \<Rightarrow> Inr (Some r, s)
           | _ \<Rightarrow> Inr (None, s)))"

definition TraceFunctionWithArgs ::
  "'t reflection \<Rightarrow> ('t, 'v, 'w) func option \<Rightarrow> ('t \<times> 'v) option list \<Rightarrow> probe \<Rightarrow> 'w profiler
   \<Rightarrow> panic + 'w profiler" where
  "TraceFunctionWithArgs rt f args pr s =
     (case f of
        None \<Rightarrow> Inr (emit [Log NotAFunction] s)
      | Some fnValue \<Rightarrow>
          if length args \<noteq> length (paramTypes fnValue)
          then Inr (emit [Log (ArgumentCountMismatch (length (paramTypes fnValue)) (length args))] s)
          else
            (case checkArgs rt 0 args (paramTypes fnValue) of
               Panicked e \<Rightarrow> Inl e
             | Rejected msg \<Rightarrow> Inr (emit [Log msg] s)
             | Accepted argValues \<Rightarrow>
                 (let name = generateFunctionName rt fnValue
                  in case executeFunctionWithProfiling name
                            (\<lambda>w. let (reflectResults, w) = body fnValue argValues w in ((), w)) pr s of
                       Inl e \<Rightarrow> Inl e
                     | Inr (u, s) \<Rightarrow> Inr s)))"

subsection \<open>Sequences of invocations\<close>

text \<open>
  A run of the program: traced invocations one after the other, each with the identity
  it is traced under, the callable and what the runtime shows during it.
\<close>

fun traceAll ::
  "(string \<times> ('w \<Rightarrow> 'a \<times> 'w) \<times> probe) list \<Rightarrow> 'w profiler \<Rightarrow> panic + 'w profiler" where
  "traceAll [] s = Inr s"
| "traceAll ((name, fn, pr) # calls) s =
     (case executeFunctionWithProfiling name fn pr s of
        Inl e \<Rightarrow> Inl e
      | Inr (res, s) \<Rightarrow> traceAll calls s)"

text \<open>
  What can be seen of an identity from outside: how often its CPU profile was started,
  and how often its callable ran.
\<close>

definition profiledCount :: "string \<Rightarrow> 'w profiler \<Rightarrow> nat" where
  "profiledCount name s = length (filter (\<lambda>e. e = StartCPUProfile (cpuProfPath s name)) (events s))"

definition invokedCount :: "string \<Rightarrow> 'w profiler \<Rightarrow> nat" where
  "invokedCount name s = length (filter (\<lambda>e. e = Invoke name) (events s))"

definition profiledAfter ::
  "string \<Rightarrow> (string \<times> ('w \<Rightarrow> 'a \<times> 'w) \<times> probe) list \<Rightarrow> 'w profiler \<Rightarrow> nat option" where
  "profiledAfter name calls s =
     (case traceAll calls s of Inl e \<Rightarrow> None | Inr s \<Rightarrow> Some (profiledCount name s))"

text \<open>
  The shape of the tables in every state the program reaches: the table has one entry
  per identity, every entry points to a record of its own, allocated below \<open>nextAddr\<close>.
\<close>

definition wf_table :: "'w profiler \<Rightarrow> bool" where
  "wf_table s \<longleftrightarrow>
     distinct (map fst (functionMetrics s)) \<and> distinct (map snd (functionMetrics s))
     \<and> list_all (\<lambda>(k, p). p < nextAddr s \<and> heap s p \<noteq> None) (functionMetrics s)"

text \<open>The counter of an identity as the next invocation reads it (a missing key reads 0).\<close>

definition counterOf :: "'w profiler \<Rightarrow> string \<Rightarrow> uint64" where
  "counterOf s name = (case callCounters s name of None \<Rightarrow> 0 | Some c \<Rightarrow> c)"

text \<open>
  How many of the next \<open>k\<close> invocations of an identity are profiled, when its counter
  stands at \<open>c\<close>: each one increments the counter, and is profiled when the new value
  is a multiple of the rate.
\<close>

fun hits :: "uint64 \<Rightarrow> uint64 \<Rightarrow> nat \<Rightarrow> nat" where
  "hits rate c 0 = 0"
| "hits rate c (Suc k) = (if (c + 1) mod rate = 0 then 1 else 0) + hits rate (c + 1) k"

text \<open>A sample of runtime readings: two goroutines fewer and 60 bytes less after the call.\<close>

definition sampleProbe :: probe where
  "sampleProbe = \<lparr>goroutinesBefore = 5, goroutinesAfter = 3, allocBefore = 100, allocAfter = 40,
          cpuProfileFails = False, startedAt = 10, elapsedTime = 2\<rparr>"

text \<open>The record of an identity after one more invocation, when the invocation returns.\<close>

definition metricsAfter ::
  "string \<Rightarrow> ('w \<Rightarrow> 'a \<times> 'w) \<Rightarrow> probe \<Rightarrow> 'w profiler \<Rightarrow> FunctionMetrics option" where
  "metricsAfter name fn pr s =
     (case executeFunctionWithProfiling name fn pr s of
        Inl e \<Rightarrow> None
      | Inr (res, s) \<Rightarrow> metricsOf s name)"

text \<open>A state in which the identity \<open>f\<close> has run 100 times and has a record from a profiled run.\<close>

definition sampleState :: "unit profiler" where
  "sampleState =
     \<lparr>functionMetrics = [(''f'', 0)],
      heap = [0 \<mapsto> \<lparr>FunctionLastRanAt = 1, CPUProfileFilePath = ''c.prof'',
                    MemProfileFilePath = ''m.prof'', MemoryUsage = 7, GoroutineCount = 1,
                    ExecutionTime = 1\<rparr>],
      nextAddr = 1, basePath = [], samplingRate = 100, callCounters = [''f'' \<mapsto> 100],
      events = [], world = ()\<rparr>"

text \<open>What a caller reads in the map \<open>FunctionTraceDetails\<close> returned, through its pointers.\<close>

definition snapshotOf :: "(string \<times> nat) list \<Rightarrow> 'w profiler \<Rightarrow> string \<Rightarrow> FunctionMetrics option" where
  "snapshotOf result s name =
     (case map_of result name of None \<Rightarrow> None | Some p \<Rightarrow> heap s p)"

text \<open>Take the details, run more traced invocations, then read the details taken before.\<close>

definition detailsThenTrace ::
  "'w profiler \<Rightarrow> (string \<times> ('w \<Rightarrow> 'a \<times> 'w) \<times> probe) list \<Rightarrow> string \<Rightarrow> FunctionMetrics option" where
  "detailsThenTrace s calls name =
     (case FunctionTraceDetails s of
        Inl e \<Rightarrow> None
      | Inr (result, s1) \<Rightarrow>
          (case traceAll calls s1 of
             Inl e \<Rightarrow> None
           | Inr s2 \<Rightarrow> snapshotOf result s2 name))"

text \<open>
  A sample for the reflective entry points: types are their names, a type is assignable
  to itself only, and \<open>main.add\<close> takes two ints and returns their sum.
\<close>

definition sampleReflection :: "string reflection" where
  "sampleReflection = \<lparr>AssignableTo = (=), TypeString = id\<rparr>"

definition sampleFunc :: "(string, int, unit) func" where
  "sampleFunc = \<lparr>funcName = ''main.add'', paramTypes = [''int'', ''int''], resultTypes = [''int''],
                 body = (\<lambda>args w. ([sum_list args], w))\<rparr>"

text \<open>An argument passes the loop's check: it is not nil and its type is assignable.\<close>

definition assignableArg :: "'t reflection \<Rightarrow> ('t \<times> 'v) option \<Rightarrow> 't \<Rightarrow> bool" where
  "assignableArg rt arg expectedType =
     (case arg of None \<Rightarrow> False | Some (argType, argValue) \<Rightarrow> AssignableTo rt argType expectedType)"

text \<open>
  The states of the profiler that a program reaches: the package starts in \<^term>\<open>init_profiler\<close>,
  and every later state comes from setting the sampling rate, from a log line or a panic
  report, from a traced invocation that returned, or from a call of
  \<^term>\<open>FunctionTraceDetails\<close>. The result of the traced callable does not enter the
  state, so the callables are taken at the result type \<^typ>\<open>unit\<close>.
\<close>

inductive reachable :: "'w profiler \<Rightarrow> bool" where
  start: "reachable (init_profiler base w)"
| rate: "reachable s \<Longrightarrow> reachable (SetSamplingRate q s)"
| logged: "reachable s \<Longrightarrow> reachable (emit es s)"
| traced: "reachable s \<Longrightarrow>
     executeFunctionWithProfiling name (\<lambda>w. ((), f w)) pr s = Inr (res, s') \<Longrightarrow> reachable s'"
| details: "reachable s \<Longrightarrow> FunctionTraceDetails s = Inr (result, s') \<Longrightarrow> reachable s'"

section \<open>core: load and health of the service\<close>

text \<open>
  \<^verbatim>\<open>CalculateOverallLoad\<close>: the weighted average of the two load fractions, cut at 100.
  \<open>ParseFloat64ToString\<close> stands for \<^verbatim>\<open>common.ParseFloat64ToString\<close>.
\<close>

definition CalculateOverallLoad ::
  "(float64 \<Rightarrow> string) \<Rightarrow> float64 \<Rightarrow> float64 \<Rightarrow> float64 \<times> string" where
  "CalculateOverallLoad ParseFloat64ToString serviceCPUF serviceMemF =
     (let cpuWeight = 0.5;
          memWeight = 0.5;
          overallLoad = (cpuWeight * serviceCPUF) + (memWeight * serviceMemF);
          overallLoad = (if overallLoad > 100 then 100 else overallLoad)
      in (overallLoad, ParseFloat64ToString overallLoad @ ''%''))"

definition msgExcellent :: string where
  "msgExcellent = ''[Excellent] Service health is optimal. All systems are operating within normal parameters.''"

definition msgGood :: string where
  "msgGood = ''[Good] Service health is performing well with minor optimizations recommended.''"

definition msgSatisfactory :: string where
  "msgSatisfactory = ''[Satisfactory] Service health is stable with room for performance improvements.''"

definition msgFair :: string where
  "msgFair = ''[Fair] Service health is functional but requires attention to resource utilization.''"

definition msgPoor :: string where
  "msgPoor = ''[Poor] Service health is degraded. Immediate investigation and remediation required.''"

definition msgCritical :: string where
  "msgCritical = ''[Critical] Service health is severely compromised. Urgent intervention necessary.''"

definition msgScoreError :: string where
  "msgScoreError = ''Error: Unable to calculate health score. Please check system configuration.''"

definition getStatusMessage :: "float64 \<Rightarrow> string" where
  "getStatusMessage healthScore =
     (if healthScore \<ge> 90 then msgExcellent
      else if healthScore \<ge> 85 then msgGood
      else if healthScore \<ge> 70 then msgSatisfactory
      else if healthScore \<ge> 50 then msgFair
      else if healthScore \<ge> 30 then msgPoor
      else msgCritical)"

text \<open>What \<^verbatim>\<open>CalculateHealthScore\<close> hands back for the service and for the system.\<close>

record HealthScore =
  Percentage :: float64
  ScoreMessage :: string

record HealthScores =
  ServiceScore :: HealthScore
  SystemScore :: HealthScore

record Health =
  Percent :: float64
  Healthy :: bool
  Message :: string
  IconMsg :: string

record ServiceHealth =
  SystemHealth :: Health
  ServiceHealthOf :: Health

text \<open>
  \<^verbatim>\<open>GetServiceHealth\<close>. \<open>CalculateHealthScore\<close> is the scoring function it calls, which
  fails (\<open>Inl\<close>) or returns the two scores.
\<close>

definition GetServiceHealth :: "('stats \<Rightarrow> string + HealthScores) \<Rightarrow> 'stats \<Rightarrow> ServiceHealth" where
  "GetServiceHealth CalculateHealthScore serviceStats =
     (case CalculateHealthScore serviceStats of
        Inl err \<Rightarrow>
          \<lparr>SystemHealth = \<lparr>Percent = 0, Healthy = False, Message = msgScoreError, IconMsg = []\<rparr>,
           ServiceHealthOf = \<lparr>Percent = 0, Healthy = False, Message = msgScoreError, IconMsg = []\<rparr>\<rparr>
      | Inr healthInPercent \<Rightarrow>
          (let servicePercent = Percentage (ServiceScore healthInPercent);
               systemPercent = Percentage (SystemScore healthInPercent)
           in \<lparr>SystemHealth =
                 \<lparr>Percent = systemPercent, Healthy = (systemPercent > 50),
                  Message = getStatusMessage systemPercent,
                  IconMsg = ScoreMessage (SystemScore healthInPercent)\<rparr>,
               ServiceHealthOf =
                 \<lparr>Percent = servicePercent, Healthy = (servicePercent > 50),
                  Message = getStatusMessage servicePercent,
                  IconMsg = ScoreMessage (ServiceScore healthInPercent)\<rparr>\<rparr>))"

section \<open>timeseries/storeMetrics.go and api/api.go: writing and querying the series\<close>

subsection \<open>The storage engine and the environment\<close>

text \<open>
  The rows of the storage engine (\<^verbatim>\<open>tstorage.Label\<close>, \<^verbatim>\<open>tstorage.DataPoint\<close>,
  \<^verbatim>\<open>tstorage.Row\<close>). Timestamps are Unix seconds; the code only compares them and uses
  them as keys.
\<close>

record Label =
  LabelName :: string
  LabelValue :: string

record DataPoint =
  Timestamp :: int
  Value :: float64

record Row =
  Metric :: string
  RowDataPoint :: DataPoint
  Labels :: "Label list"

text \<open>
  The storage engine as the code uses it: \<^verbatim>\<open>InsertRows\<close> and \<^verbatim>\<open>Select\<close>, both of which
  may fail, over a storage state \<open>'db\<close>.
\<close>

record 'db storage =
  InsertRows :: "'db \<Rightarrow> Row list \<Rightarrow> string + 'db"
  Select :: "'db \<Rightarrow> string \<Rightarrow> Label list \<Rightarrow> int \<Rightarrow> int \<Rightarrow> string + DataPoint list"

text \<open>
  What the two functions read from the operating system and the standard library:
  \<^verbatim>\<open>os.Hostname()\<close> (\<open>None\<close> when it fails), \<^verbatim>\<open>time.Now()\<close>, whether
  \<^verbatim>\<open>time.LoadLocation("Local")\<close> succeeds, the recorded start of the service,
  \<^verbatim>\<open>time.Parse(time.RFC3339, _)\<close> and
  \<^verbatim>\<open>time.Unix(_, 0).UTC().Format(time.RFC3339Nano)\<close>.
\<close>

record environment =
  osHostname :: "string option"
  timeNow :: go_time
  locationLoads :: bool
  serviceStartTime :: go_time
  parseTime :: "string \<Rightarrow> go_time option"
  formatTime :: "int \<Rightarrow> string"

text \<open>\<^verbatim>\<open>Time.Unix()\<close>: the seconds of a time given in nanoseconds.\<close>

definition Unix :: "go_time \<Rightarrow> int" where
  "Unix t = t div 1000000000"

definition GetHostLabel :: "environment \<Rightarrow> Label" where
  "GetHostLabel env =
     (let hostname = (case osHostname env of None \<Rightarrow> ''unknown'' | Some h \<Rightarrow> h)
      in \<lparr>LabelName = ''host'', LabelValue = hostname\<rparr>)"

text \<open>\<^verbatim>\<open>GetDataPoints\<close>; \<open>inst\<close> is what \<^verbatim>\<open>GetStorageInstance()\<close> returns.\<close>

definition GetDataPoints ::
  "'db storage \<Rightarrow> string + 'db \<Rightarrow> string \<Rightarrow> Label list \<Rightarrow> int \<Rightarrow> int \<Rightarrow> string + DataPoint list" where
  "GetDataPoints sto inst metric labels start end =
     (case inst of
        Inl err \<Rightarrow> Inl (''error getting storage instance: '' @ err)
      | Inr db \<Rightarrow> Select sto db metric labels start end)"

subsection \<open>The snapshot\<close>

text \<open>\<^verbatim>\<open>models.ServiceStats\<close>, with the fields that are stored.\<close>

record RawMemStatsRecords =
  RecordName :: string
  RecordValue :: float64

record CoreStatistics =
  Goroutines :: go_int

record LoadStatistics =
  OverallLoadOfServiceRaw :: float64
  ServiceCPULoadRaw :: float64
  ServiceMemLoadRaw :: float64
  SystemCPULoadRaw :: float64
  SystemMemLoadRaw :: float64
  SystemDiskLoadRaw :: float64
  TotalDiskLoadRaw :: float64

record CPUStatistics =
  TotalCores :: float64
  CoresUsedByService :: float64
  CoresUsedBySystem :: float64

record MemoryStatistics =
  TotalSystemMemoryRaw :: float64
  MemoryUsedBySystemRaw :: float64
  MemoryUsedByServiceRaw :: float64
  AvailableMemoryRaw :: float64
  GCPauseDurationRaw :: float64
  StackMemoryUsageRaw :: float64
  RawMemStatsRecordsOf :: "RawMemStatsRecords list"

record NetworkIO =
  BytesSent :: float64
  BytesReceived :: float64

record ServiceStats =
  CoreStatisticsOf :: CoreStatistics
  LoadStatisticsOf :: LoadStatistics
  CPUStatisticsOf :: CPUStatistics
  MemoryStatisticsOf :: MemoryStatistics
  HeapAllocByServiceRaw :: uint64
  HeapAllocBySystemRaw :: uint64
  TotalAllocByServiceRaw :: uint64
  TotalMemoryByOSRaw :: uint64
  NetworkIOOf :: NetworkIO
  HealthOf :: ServiceHealth

text \<open>The conversions \<^verbatim>\<open>float64(n)\<close> of an \<^verbatim>\<open>int\<close> and of a \<^verbatim>\<open>uint64\<close>.\<close>

definition float64_of_int :: "go_int \<Rightarrow> float64" where
  "float64_of_int n = real_of_int (sint n)"

definition float64_of_uint64 :: "uint64 \<Rightarrow> float64" where
  "float64_of_uint64 n = real (unat n)"

subsection \<open>StoreServiceMetrics\<close>

definition mkRow :: "string \<Rightarrow> int \<Rightarrow> float64 \<Rightarrow> Label \<Rightarrow> Row" where
  "mkRow metric timestamp v label =
     \<lparr>Metric = metric, RowDataPoint = \<lparr>Timestamp = timestamp, Value = v\<rparr>, Labels = [label]\<rparr>"

definition generateCoreStatsRows :: "ServiceStats \<Rightarrow> Label \<Rightarrow> int \<Rightarrow> Row list" where
  "generateCoreStatsRows serviceMetrics label timestamp =
     [mkRow ''goroutines'' timestamp (float64_of_int (Goroutines (CoreStatisticsOf serviceMetrics))) label]"

definition generateLoadStatsRows :: "ServiceStats \<Rightarrow> Label \<Rightarrow> int \<Rightarrow> Row list" where
  "generateLoadStatsRows serviceMetrics label timestamp =
     [mkRow ''overall_load_of_service'' timestamp (OverallLoadOfServiceRaw (LoadStatisticsOf serviceMetrics)) label,
      mkRow ''service_cpu_load'' timestamp (ServiceCPULoadRaw (LoadStatisticsOf serviceMetrics)) label,
      mkRow ''service_memory_load'' timestamp (ServiceMemLoadRaw (LoadStatisticsOf serviceMetrics)) label,
      mkRow ''system_cpu_load'' timestamp (SystemCPULoadRaw (LoadStatisticsOf serviceMetrics)) label,
      mkRow ''system_memory_load'' timestamp (SystemMemLoadRaw (LoadStatisticsOf serviceMetrics)) label,
      mkRow ''system_disk_load'' timestamp (SystemDiskLoadRaw (LoadStatisticsOf serviceMetrics)) label]"

definition generateCPUStatsRows :: "ServiceStats \<Rightarrow> Label \<Rightarrow> int \<Rightarrow> Row list" where
  "generateCPUStatsRows serviceMetrics label timestamp =
     [mkRow ''total_cores'' timestamp (TotalCores (CPUStatisticsOf serviceMetrics)) label,
      mkRow ''cores_used_by_service'' timestamp (CoresUsedByService (CPUStatisticsOf serviceMetrics)) label,
      mkRow ''cores_used_by_system'' timestamp (CoresUsedBySystem (CPUStatisticsOf serviceMetrics)) label]"

definition generateMemoryStatsRows :: "ServiceStats \<Rightarrow> Label \<Rightarrow> int \<Rightarrow> Row list" where
  "generateMemoryStatsRows serviceMetrics label timestamp =
     (let rows =
        [mkRow ''total_system_memory'' timestamp (TotalSystemMemoryRaw (MemoryStatisticsOf serviceMetrics)) label,
         mkRow ''memory_used_by_system'' timestamp (MemoryUsedBySystemRaw (MemoryStatisticsOf serviceMetrics)) label,
         mkRow ''memory_used_by_service'' timestamp (MemoryUsedByServiceRaw (MemoryStatisticsOf serviceMetrics)) label,
         mkRow ''available_memory'' timestamp (AvailableMemoryRaw (MemoryStatisticsOf serviceMetrics)) label,
         mkRow ''gc_pause_duration'' timestamp (GCPauseDurationRaw (MemoryStatisticsOf serviceMetrics)) label,
         mkRow ''stack_memory_usage'' timestamp (StackMemoryUsageRaw (MemoryStatisticsOf serviceMetrics)) label];
          rows = rows @ map (\<lambda>record. mkRow (RecordName record) timestamp (RecordValue record) label)
                          (RawMemStatsRecordsOf (MemoryStatisticsOf serviceMetrics));
          rows = rows @
        [mkRow ''heap_alloc_by_service'' timestamp (float64_of_uint64 (HeapAllocByServiceRaw serviceMetrics)) label,
         mkRow ''heap_alloc_by_system'' timestamp (float64_of_uint64 (HeapAllocBySystemRaw serviceMetrics)) label,
         mkRow ''total_alloc_by_service'' timestamp (float64_of_uint64 (TotalAllocByServiceRaw serviceMetrics)) label,
         mkRow ''total_memory_by_os'' timestamp (float64_of_uint64 (TotalMemoryByOSRaw serviceMetrics)) label,
         mkRow ''total_disk_size'' timestamp (TotalDiskLoadRaw (LoadStatisticsOf serviceMetrics)) label]
      in rows)"

definition generateNetworkIORows :: "ServiceStats \<Rightarrow> Label \<Rightarrow> int \<Rightarrow> Row list" where
  "generateNetworkIORows serviceMetrics label timestamp =
     [mkRow ''bytes_sent'' timestamp (BytesSent (NetworkIOOf serviceMetrics)) label,
      mkRow ''bytes_received'' timestamp (BytesReceived (NetworkIOOf serviceMetrics)) label]"

definition generateHealthStatsRows :: "ServiceStats \<Rightarrow> Label \<Rightarrow> int \<Rightarrow> Row list" where
  "generateHealthStatsRows serviceMetrics label timestamp =
     [mkRow ''service_health_percent'' timestamp (Percent (ServiceHealthOf (HealthOf serviceMetrics))) label,
      mkRow ''system_health_percent'' timestamp (Percent (SystemHealth (HealthOf serviceMetrics))) label]"

text \<open>The rows of one snapshot, in the order \<^verbatim>\<open>StoreServiceMetrics\<close> appends them.\<close>

definition snapshotRows :: "ServiceStats \<Rightarrow> Label \<Rightarrow> int \<Rightarrow> Row list" where
  "snapshotRows serviceMetrics label timestamp =
     generateCoreStatsRows serviceMetrics label timestamp
     @ generateLoadStatsRows serviceMetrics label timestamp
     @ generateCPUStatsRows serviceMetrics label timestamp
     @ generateMemoryStatsRows serviceMetrics label timestamp
     @ generateNetworkIORows serviceMetrics label timestamp
     @ generateHealthStatsRows serviceMetrics label timestamp"

definition StoreServiceMetrics ::
  "'db storage \<Rightarrow> environment \<Rightarrow> string + 'db \<Rightarrow> ServiceStats \<Rightarrow> string + 'db" where
  "StoreServiceMetrics sto env inst serviceMetrics =
     (case inst of
        Inl err \<Rightarrow> Inl (''error getting storage instance: '' @ err)
      | Inr db \<Rightarrow>
          if \<not> locationLoads env then Inl ''error loading location''
          else
            let timestamp = Unix (timeNow env);
                label = GetHostLabel env;
                rows = snapshotRows serviceMetrics label timestamp
            in case InsertRows sto db rows of
                 Inl err \<Rightarrow> Inl (''error storing service metrics: '' @ err)
               | Inr db \<Rightarrow> Inr db)"

subsection \<open>GetServiceMetricsFromStorage\<close>

definition NameMap :: "(string \<times> string) list" where
  "NameMap =
     [(''heap_alloc'', ''HeapAlloc''),
      (''heap_sys'', ''HeapSys''),
      (''heap_inuse'', ''HeapInuse''),
      (''heap_idle'', ''HeapIdle''),
      (''heap_released'', ''HeapReleased''),
      (''stack_inuse'', ''StackInuse''),
      (''stack_sys'', ''StackSys''),
      (''pause_total_ns'', ''PauseTotalNs''),
      (''num_gc'', ''NumGC''),
      (''gc_cpu_fraction'', ''GCCPUFraction''),
      (''m_span_inuse'', ''MSpanInuse''),
      (''m_span_sys'', ''MSpanSys''),
      (''m_cache_inuse'', ''MCacheInuse''),
      (''m_cache_sys'', ''MCacheSys''),
      (''buck_hash_sys'', ''BuckHashSys''),
      (''gc_sys'', ''GCSys''),
      (''other_sys'', ''OtherSys'')]"

text \<open>The key a field's values are filed under (lines 131-135).\<close>

definition fieldKey :: "string \<Rightarrow> string" where
  "fieldKey fieldName = (case map_of NameMap fieldName of Some alias \<Rightarrow> alias | None \<Rightarrow> fieldName)"

text \<open>
  \<^verbatim>\<open>dataByTimestamp\<close>, a Go map of Go maps, as an association list of association lists;
  an assignment replaces the value of a key or adds the key.
\<close>

type_synonym values_map = "(string \<times> float64) list"
type_synonym timestamp_map = "(int \<times> values_map) list"

text \<open>The inner loop (lines 127-136) over the data points of one field.\<close>

fun addDataPoints :: "string \<Rightarrow> DataPoint list \<Rightarrow> timestamp_map \<Rightarrow> timestamp_map" where
  "addDataPoints fieldName [] dataByTimestamp = dataByTimestamp"
| "addDataPoints fieldName (dp # datapoints) dataByTimestamp =
     (let vs = (case map_of dataByTimestamp (Timestamp dp) of None \<Rightarrow> [] | Some vs \<Rightarrow> vs);
          vs = AList.update (fieldKey fieldName) (Value dp) vs
      in addDataPoints fieldName datapoints (AList.update (Timestamp dp) vs dataByTimestamp))"

text \<open>The outer loop (lines 120-137) over the requested fields; it stops at the first failure.\<close>

fun collectFields ::
  "'db storage \<Rightarrow> string + 'db \<Rightarrow> Label \<Rightarrow> int \<Rightarrow> int \<Rightarrow> string list \<Rightarrow> timestamp_map
   \<Rightarrow> string + timestamp_map" where
  "collectFields sto inst hostLabel start end [] dataByTimestamp = Inr dataByTimestamp"
| "collectFields sto inst hostLabel start end (fieldName # fieldNames) dataByTimestamp =
     (case GetDataPoints sto inst fieldName [hostLabel] start end of
        Inl err \<Rightarrow> Inl err
      | Inr datapoints \<Rightarrow>
          collectFields sto inst hostLabel start end fieldNames
            (addDataPoints fieldName datapoints dataByTimestamp))"

text \<open>The decoded request body (\<^verbatim>\<open>models.FetchDataPoints\<close>) and the request.\<close>

record FetchDataPoints =
  FieldName :: "string list"
  StartTime :: string
  EndTime :: string

record request =
  Method :: string
  Body :: "FetchDataPoints option"

text \<open>A row of the answer: the rendered time and the values of that time.\<close>

type_synonym result_row = "string \<times> values_map"

datatype response = HttpError nat string | HttpOK "result_row list"

text \<open>
  The handler. \<open>Body\<close> is \<open>None\<close> when the JSON body does not decode. The rows are built
  in the order of the association list and sorted by the rendered time, as
  \<^verbatim>\<open>sort.Slice\<close> does with the comparison of the two time strings.
\<close>

definition GetServiceMetricsFromStorage ::
  "'db storage \<Rightarrow> environment \<Rightarrow> string + 'db \<Rightarrow> request \<Rightarrow> response" where
  "GetServiceMetricsFromStorage sto env inst r =
     (if Method r \<noteq> ''POST'' then HttpError 405 ''Method not allowed''
      else case Body r of
        None \<Rightarrow> HttpError 400 ''Failed to decode request''
      | Some req \<Rightarrow>
         (case parseTime env (StartTime req) of
            None \<Rightarrow> HttpError 400 ''Invalid start time''
          | Some startTime \<Rightarrow>
             (case parseTime env (EndTime req) of
                None \<Rightarrow> HttpError 400 ''Invalid end time''
              | Some endTime \<Rightarrow>
                 (let startTime = (if startTime < serviceStartTime env
                                   then serviceStartTime env else startTime);
                      hostLabel = GetHostLabel env
                  in case collectFields sto inst hostLabel (Unix startTime) (Unix endTime)
                            (FieldName req) [] of
                       Inl err \<Rightarrow> HttpError 500 ''Failed to get data points''
                     | Inr dataByTimestamp \<Rightarrow>
                         HttpOK (sort_key fst
                           (map (\<lambda>(timestamp, vs). (formatTime env timestamp, vs))
                                dataByTimestamp))))))"

subsection \<open>Reading the handler's answer\<close>

text \<open>
  The points the handler gets for a field: what \<open>GetDataPoints\<close> returns for the host
  label and the window of the request, with the start moved up to the start of the
  service.
\<close>

definition pointsOf ::
  "'db storage \<Rightarrow> environment \<Rightarrow> string + 'db \<Rightarrow> go_time \<Rightarrow> go_time \<Rightarrow> string \<Rightarrow> DataPoint list" where
  "pointsOf sto env inst startTime endTime fieldName =
     (case GetDataPoints sto inst fieldName [GetHostLabel env]
             (Unix (if startTime < serviceStartTime env then serviceStartTime env else startTime))
             (Unix endTime) of
        Inl err \<Rightarrow> []
      | Inr datapoints \<Rightarrow> datapoints)"

text \<open>The value filed under a timestamp and a key, if any.\<close>

definition valueAt :: "timestamp_map \<Rightarrow> int \<times> string \<Rightarrow> float64 option" where
  "valueAt m = (\<lambda>(t, k). case map_of m t of None \<Rightarrow> None | Some vs \<Rightarrow> map_of vs k)"

text \<open>Every timestamp is a key once, and holds at least one value.\<close>

definition filed :: "timestamp_map \<Rightarrow> bool" where
  "filed m \<longleftrightarrow> distinct (map fst m) \<and> list_all (\<lambda>(t, vs). vs \<noteq> []) m"

text \<open>The assignments the two loops make, in order.\<close>

definition writesOf :: "string \<Rightarrow> DataPoint list \<Rightarrow> ((int \<times> string) \<times> float64) list" where
  "writesOf fieldName datapoints =
     map (\<lambda>dp. ((Timestamp dp, fieldKey fieldName), Value dp)) datapoints"

fun allWrites :: "(string \<Rightarrow> DataPoint list) \<Rightarrow> string list \<Rightarrow> ((int \<times> string) \<times> float64) list" where
  "allWrites pts [] = []"
| "allWrites pts (f # fs) = writesOf f (pts f) @ allWrites pts fs"

text \<open>
  A sample: a storage that answers from a fixed table of points, and an environment
  whose clock functions are given on the few values the sample uses.
\<close>

definition fixedStorage :: "(string \<Rightarrow> DataPoint list) \<Rightarrow> unit storage" where
  "fixedStorage pts =
     \<lparr>InsertRows = (\<lambda>db rows. Inr db),
      Select = (\<lambda>db metric labels start end.
                 Inr (filter (\<lambda>dp. start \<le> Timestamp dp \<and> Timestamp dp \<le> end) (pts metric)))\<rparr>"

definition samplePoints :: "string \<Rightarrow> DataPoint list" where
  "samplePoints metric =
     (if metric = ''goroutines'' then [\<lparr>Timestamp = 200, Value = 6\<rparr>, \<lparr>Timestamp = 100, Value = 5\<rparr>]
      else if metric = ''heap_alloc'' then [\<lparr>Timestamp = 200, Value = 7\<rparr>]
      else [])"

definition sampleFormat :: "int \<Rightarrow> string" where
  "sampleFormat t =
     (if t = 100 then ''1970-01-01T00:01:40Z''
      else if t = 200 then ''1970-01-01T00:03:20Z''
      else ''0001-01-01T00:00:00Z'')"

definition sampleParse :: "string \<Rightarrow> go_time option" where
  "sampleParse s =
     (if s = ''1970-01-01T00:00:00Z'' then Some 0
      else if s = ''1970-01-01T01:00:00Z'' then Some 3600000000000
      else None)"

definition sampleEnv :: environment where
  "sampleEnv =
     \<lparr>osHostname = Some ''node1'', timeNow = 200500000000, locationLoads = True,
      serviceStartTime = 50000000000, parseTime = sampleParse, formatTime = sampleFormat\<rparr>"

definition sampleRequest :: "string list \<Rightarrow> request" where
  "sampleRequest fs =
     \<lparr>Method = ''POST'',
      Body = Some \<lparr>FieldName = fs, StartTime = ''1970-01-01T00:00:00Z'',
                   EndTime = ''1970-01-01T01:00:00Z''\<rparr>\<rparr>"

subsection \<open>The storage engine of the round trip\<close>

text \<open>
  Modelled from the spec: the storage engine behind \<^verbatim>\<open>GetStorageInstance()\<close> (package
  \<^verbatim>\<open>tstorage\<close> and the function that opens it are not among the sources). The
  spec: a series point is (metric name, label set, timestamp, numeric value); the
  storage is append-only, a log and not a key-value table, and inserting the same key
  again adds a duplicate point; \<^verbatim>\<open>insertRows(rows)\<close> appends, and
  \<^verbatim>\<open>selectRange(metric, labels, start, end)\<close> returns the raw points of the metric and
  label set in the range.
\<close>

definition logStorage :: "Row list storage" where
  "logStorage =
     \<lparr>InsertRows = (\<lambda>db rows. Inr (db @ rows)),
      Select = (\<lambda>db metric labels start end.
        Inr (map RowDataPoint
              (filter (\<lambda>row. Metric row = metric \<and> set (Labels row) = set labels
                              \<and> start \<le> Timestamp (RowDataPoint row)
                              \<and> Timestamp (RowDataPoint row) \<le> end) db)))\<rparr>"

text \<open>The record names that \<^verbatim>\<open>ConstructRawMemStats\<close> gives (lines 906-932), in its order.\<close>

definition rawMemStatNames :: "string list" where
  "rawMemStatNames =
     [''alloc'', ''total_alloc'', ''sys'', ''lookups'', ''mallocs'', ''frees'', ''heap_alloc'',
      ''heap_sys'', ''heap_idle'', ''heap_inuse'', ''heap_released'', ''heap_objects'',
      ''stack_inuse'', ''stack_sys'', ''m_span_inuse'', ''m_span_sys'', ''m_cache_inuse'',
      ''m_cache_sys'', ''buck_hash_sys'', ''gc_sys'', ''other_sys'', ''next_gc'', ''last_gc'',
      ''pause_total_ns'', ''num_gc'', ''num_forced_gc'', ''gc_cpu_fraction'']"

text \<open>The metric names of a snapshot's rows, in the order of the rows.\<close>

definition snapshotMetrics :: "ServiceStats \<Rightarrow> string list" where
  "snapshotMetrics serviceMetrics =
     map Metric (snapshotRows serviceMetrics \<lparr>LabelName = [], LabelValue = []\<rparr> 0)"

text \<open>A sample snapshot, with two raw memory records.\<close>

definition sampleSnapshot :: ServiceStats where
  "sampleSnapshot =
     \<lparr>CoreStatisticsOf = \<lparr>Goroutines = 8\<rparr>,
      LoadStatisticsOf = \<lparr>OverallLoadOfServiceRaw = 20, ServiceCPULoadRaw = 30,
         ServiceMemLoadRaw = 10, SystemCPULoadRaw = 40, SystemMemLoadRaw = 50,
         SystemDiskLoadRaw = 60, TotalDiskLoadRaw = 70\<rparr>,
      CPUStatisticsOf = \<lparr>TotalCores = 4, CoresUsedByService = 1, CoresUsedBySystem = 2\<rparr>,
      MemoryStatisticsOf = \<lparr>TotalSystemMemoryRaw = 16, MemoryUsedBySystemRaw = 9,
         MemoryUsedByServiceRaw = 3, AvailableMemoryRaw = 7, GCPauseDurationRaw = 1,
         StackMemoryUsageRaw = 2,
         RawMemStatsRecordsOf = [\<lparr>RecordName = ''heap_alloc'', RecordValue = 2\<rparr>,
                                 \<lparr>RecordName = ''mallocs'', RecordValue = 9\<rparr>]\<rparr>,
      HeapAllocByServiceRaw = 11, HeapAllocBySystemRaw = 12, TotalAllocByServiceRaw = 13,
      TotalMemoryByOSRaw = 14,
      NetworkIOOf = \<lparr>BytesSent = 5, BytesReceived = 6\<rparr>,
      HealthOf = \<lparr>SystemHealth = \<lparr>Percent = 80, Healthy = True, Message = [], IconMsg = []\<rparr>,
                  ServiceHealthOf = \<lparr>Percent = 90, Healthy = True, Message = [], IconMsg = []\<rparr>\<rparr>\<rparr>"

text \<open>Store one snapshot in the empty storage, then query.\<close>

definition roundTrip :: "environment \<Rightarrow> ServiceStats \<Rightarrow> request \<Rightarrow> response" where
  "roundTrip env serviceMetrics r =
     (case StoreServiceMetrics logStorage env (Inr []) serviceMetrics of
        Inl err \<Rightarrow> HttpError 500 err
      | Inr db \<Rightarrow> GetServiceMetricsFromStorage logStorage env (Inr db) r)"

text \<open>The values the query returns for the sample snapshot.\<close>

definition sampleAnswer :: values_map where
  "sampleAnswer =
     [(''goroutines'', 8), (''overall_load_of_service'', 20), (''service_cpu_load'', 30),
      (''service_memory_load'', 10), (''system_cpu_load'', 40), (''system_memory_load'', 50),
      (''system_disk_load'', 60), (''total_cores'', 4), (''cores_used_by_service'', 1),
      (''cores_used_by_system'', 2), (''total_system_memory'', 16), (''memory_used_by_system'', 9),
      (''memory_used_by_service'', 3), (''available_memory'', 7), (''gc_pause_duration'', 1),
      (''stack_memory_usage'', 2), (''HeapAlloc'', 2), (''mallocs'', 9),
      (''heap_alloc_by_service'', 11), (''heap_alloc_by_system'', 12), (''total_alloc_by_service'', 13),
      (''total_memory_by_os'', 14), (''total_disk_size'', 70), (''bytes_sent'', 5), (''bytes_received'', 6),
      (''service_health_percent'', 90), (''system_health_percent'', 80)]"

section \<open>Properties of the load and health functions\<close>

lemma status_messages_distinct:
  "distinct [msgExcellent, msgGood, msgSatisfactory, msgFair, msgPoor, msgCritical, msgScoreError]"
  by (simp add: msgExcellent_def msgGood_def msgSatisfactory_def msgFair_def msgPoor_def
      msgCritical_def msgScoreError_def)

lemma getStatusMessage_buckets:
  "getStatusMessage s =
     (if 90 \<le> s then msgExcellent
      else if 85 \<le> s \<and> s < 90 then msgGood
      else if 70 \<le> s \<and> s < 85 then msgSatisfactory
      else if 50 \<le> s \<and> s < 70 then msgFair
      else if 30 \<le> s \<and> s < 50 then msgPoor
      else msgCritical)"
  by (simp add: getStatusMessage_def)

text \<open>
  C7. Whenever the scoring function returns scores for a snapshot, both health entries
  carry the score, are healthy exactly when the score exceeds 50, and carry the message
  of the score's bucket: Excellent from 90, Good in [85, 90), Satisfactory in [70, 85),
  Fair in [50, 70), Poor in [30, 50), Critical below 30.
\<close>

theorem C7_health_buckets:
  assumes "CalculateHealthScore stats = Inr hs"
      and "h = ServiceHealthOf (GetServiceHealth CalculateHealthScore stats)
           \<and> s = Percentage (ServiceScore hs)
         \<or> h = SystemHealth (GetServiceHealth CalculateHealthScore stats)
           \<and> s = Percentage (SystemScore hs)"
  shows "Percent h = s
       \<and> (Healthy h \<longleftrightarrow> s > 50)
       \<and> (90 \<le> s \<longrightarrow> Message h = msgExcellent)
       \<and> (85 \<le> s \<and> s < 90 \<longrightarrow> Message h = msgGood)
       \<and> (70 \<le> s \<and> s < 85 \<longrightarrow> Message h = msgSatisfactory)
       \<and> (50 \<le> s \<and> s < 70 \<longrightarrow> Message h = msgFair)
       \<and> (30 \<le> s \<and> s < 50 \<longrightarrow> Message h = msgPoor)
       \<and> (s < 30 \<longrightarrow> Message h = msgCritical)"
  using assms by (auto simp: GetServiceHealth_def Let_def getStatusMessage_buckets)

theorem C7_health_buckets_witness:
  "Percent (ServiceHealthOf (GetServiceHealth
      (\<lambda>u::unit. Inr \<lparr>ServiceScore = \<lparr>Percentage = 87, ScoreMessage = ''ok''\<rparr>,
                      SystemScore = \<lparr>Percentage = 20, ScoreMessage = ''low''\<rparr>\<rparr>) ())) = 87
   \<and> Healthy (ServiceHealthOf (GetServiceHealth
      (\<lambda>u::unit. Inr \<lparr>ServiceScore = \<lparr>Percentage = 87, ScoreMessage = ''ok''\<rparr>,
                      SystemScore = \<lparr>Percentage = 20, ScoreMessage = ''low''\<rparr>\<rparr>) ()))
   \<and> Message (ServiceHealthOf (GetServiceHealth
      (\<lambda>u::unit. Inr \<lparr>ServiceScore = \<lparr>Percentage = 87, ScoreMessage = ''ok''\<rparr>,
                      SystemScore = \<lparr>Percentage = 20, ScoreMessage = ''low''\<rparr>\<rparr>) ())) = msgGood"
  using C7_health_buckets
    [of "\<lambda>u::unit. Inr \<lparr>ServiceScore = \<lparr>Percentage = 87, ScoreMessage = ''ok''\<rparr>,
                        SystemScore = \<lparr>Percentage = 20, ScoreMessage = ''low''\<rparr>\<rparr>"
        "()"
        "\<lparr>ServiceScore = \<lparr>Percentage = 87, ScoreMessage = ''ok''\<rparr>,
          SystemScore = \<lparr>Percentage = 20, ScoreMessage = ''low''\<rparr>\<rparr>"
        "ServiceHealthOf (GetServiceHealth
          (\<lambda>u::unit. Inr \<lparr>ServiceScore = \<lparr>Percentage = 87, ScoreMessage = ''ok''\<rparr>,
                          SystemScore = \<lparr>Percentage = 20, ScoreMessage = ''low''\<rparr>\<rparr>) ())"
        87]
  by simp

text \<open>
  When the scoring function fails, no score is produced: both entries are the fixed
  error entry, with the percentage 0 and a message outside the buckets.
\<close>

lemma GetServiceHealth_error:
  "CalculateHealthScore stats = Inl err \<Longrightarrow>
     GetServiceHealth CalculateHealthScore stats =
       \<lparr>SystemHealth = \<lparr>Percent = 0, Healthy = False, Message = msgScoreError, IconMsg = []\<rparr>,
        ServiceHealthOf = \<lparr>Percent = 0, Healthy = False, Message = msgScoreError, IconMsg = []\<rparr>\<rparr>"
  by (simp add: GetServiceHealth_def)

text \<open>
  C8, as the code has it. The overall load is the weighted sum cut at 100 and nothing
  else: it never exceeds 100, and it is not raised to 0. It is non-negative whenever the
  weighted sum is, so whenever both load fractions are.
\<close>

theorem C8_overall_load_capped:
  "fst (CalculateOverallLoad fmt cpu mem) = min 100 (0.5 * cpu + 0.5 * mem)
   \<and> fst (CalculateOverallLoad fmt cpu mem) \<le> 100
   \<and> (0 \<le> cpu \<and> 0 \<le> mem \<longrightarrow>
        0 \<le> fst (CalculateOverallLoad fmt cpu mem)
        \<and> fst (CalculateOverallLoad fmt cpu mem) = max 0 (min 100 (0.5 * cpu + 0.5 * mem)))"
  by (auto simp: CalculateOverallLoad_def Let_def min_def max_def)

theorem C8_overall_load_capped_witness:
  "fst (CalculateOverallLoad (\<lambda>x. []) 150 90) = 100
   \<and> fst (CalculateOverallLoad (\<lambda>x. []) 30 10) = 20
   \<and> 0 \<le> fst (CalculateOverallLoad (\<lambda>x. []) 30 10)"
  using C8_overall_load_capped [of "\<lambda>x. []" 150 90] C8_overall_load_capped [of "\<lambda>x. []" 30 10]
  by simp

text \<open>
  C8 as the specification states it, with the result clamped to the interval from 0 to
  100, fails for a negative load fraction: the code returns the negative weighted sum.
\<close>

theorem C8_lower_clamp_counterexample:
  "fst (CalculateOverallLoad (\<lambda>x. []) (-10) 0) = -5
   \<and> fst (CalculateOverallLoad (\<lambda>x. []) (-10) 0) \<noteq> max 0 (min 100 (0.5 * (-10) + 0.5 * 0))
   \<and> \<not> 0 \<le> fst (CalculateOverallLoad (\<lambda>x. []) (-10) 0)"
  by (simp add: CalculateOverallLoad_def Let_def)

section \<open>Properties of the sampling profiler\<close>

lemma emit_fields [simp]:
  "functionMetrics (emit es s) = functionMetrics s" "heap (emit es s) = heap s"
  "nextAddr (emit es s) = nextAddr s" "basePath (emit es s) = basePath s"
  "samplingRate (emit es s) = samplingRate s" "callCounters (emit es s) = callCounters s"
  "world (emit es s) = world s" "events (emit es s) = events s @ es"
  by (simp_all add: emit_def)

lemma profPath_fields [simp]:
  "cpuProfPath (s\<lparr>callCounters := c\<rparr>) = cpuProfPath s"
  "memProfPath (s\<lparr>callCounters := c\<rparr>) = memProfPath s"
  by (simp_all add: cpuProfPath_def memProfPath_def fun_eq_iff)

lemma wf_table_emit [simp]: "wf_table (emit es s) = wf_table s"
  by (simp add: wf_table_def)

lemma update_fresh_key: "k \<notin> fst ` set al \<Longrightarrow> AList.update k v al = al @ [(k, v)]"
  by (induction al) auto

lemma wf_table_lookup:
  "wf_table s \<Longrightarrow> map_of (functionMetrics s) name = Some p \<Longrightarrow> p < nextAddr s \<and> heap s p \<noteq> None"
  by (auto simp: wf_table_def list_all_iff dest!: map_of_SomeD)

lemma recordMetrics_wf:
  assumes "wf_table s"
  shows "\<exists>s'. recordMetrics name prof cpu mem pr s = Inr s' \<and> wf_table s'
            \<and> events s' = events s \<and> callCounters s' = callCounters s
            \<and> samplingRate s' = samplingRate s \<and> basePath s' = basePath s \<and> world s' = world s
            \<and> nextAddr s \<le> nextAddr s'"
proof (cases "map_of (functionMetrics s) name")
  case None
  then have notin: "name \<notin> fst ` set (functionMetrics s)"
    by (simp add: map_of_eq_None_iff)
  have fresh: "nextAddr s \<notin> snd ` set (functionMetrics s)"
    using assms by (auto simp: wf_table_def list_all_iff)
  show ?thesis
    using assms None notin fresh
    by (auto simp: recordMetrics_def wf_table_def update_fresh_key list_all_iff)
next
  case (Some p)
  then obtain m where m: "heap s p = Some m"
    using wf_table_lookup [OF assms Some] by auto
  show ?thesis
    using assms Some m
    by (auto simp: recordMetrics_def wf_table_def Let_def list_all_iff)
qed

lemma exec_step:
  assumes wf: "wf_table s" and rate: "samplingRate s \<noteq> 0"
  shows "\<exists>s'. executeFunctionWithProfiling name fn pr s = Inr (fst (fn (world s)), s')
      \<and> wf_table s'
      \<and> callCounters s' = (callCounters s)(name \<mapsto> nextCount s name)
      \<and> samplingRate s' = samplingRate s \<and> basePath s' = basePath s
      \<and> world s' = snd (fn (world s))
      \<and> nextAddr s \<le> nextAddr s'
      \<and> events s' = events s
          @ (if nextCount s name mod samplingRate s = 0
             then [MkdirAll (basePath s @ ''/profiles''), StartCPUProfile (cpuProfPath s name)]
                  @ (if cpuProfileFails pr then [Log CPUProfileStartFailed] else [])
             else [])
          @ [Invoke name]
          @ (if nextCount s name mod samplingRate s = 0
             then [StopCPUProfile, WriteHeapProfile (memProfPath s name)] else [])"
proof -
  define prof where "prof = (nextCount s name mod samplingRate s = 0)"
  define s1 where "s1 = s\<lparr>callCounters := (callCounters s)(name \<mapsto> nextCount s name)\<rparr>"
  define s2 where "s2 = (if prof
                    then emit ([MkdirAll (basePath s1 @ ''/profiles''), StartCPUProfile (cpuProfPath s1 name)]
                               @ (if cpuProfileFails pr then [Log CPUProfileStartFailed] else [])) s1
                    else s1)"
  define s3 where "s3 = emit [Invoke name] (s2\<lparr>world := snd (fn (world s2))\<rparr>)"
  define s4 where "s4 = (if prof then emit [StopCPUProfile, WriteHeapProfile (memProfPath s1 name)] s3 else s3)"
  have wf4: "wf_table s4"
    using wf by (simp add: s4_def s3_def s2_def s1_def wf_table_def)
  obtain s' where s': "recordMetrics name prof (if prof then cpuProfPath s1 name else [])
         (if prof then memProfPath s1 name else []) pr s4 = Inr s'"
      "wf_table s'" "events s' = events s4" "callCounters s' = callCounters s4"
      "samplingRate s' = samplingRate s4" "basePath s' = basePath s4" "world s' = world s4"
      "nextAddr s4 \<le> nextAddr s'"
    using recordMetrics_wf [OF wf4] by blast
  have ex: "executeFunctionWithProfiling name fn pr s = Inr (fst (fn (world s)), s')"
  proof (cases prof)
    case True
    then have p: "nextCount s name mod samplingRate s = 0" by (simp add: prof_def)
    have w: "world s2 = world s" "s4 = emit [StopCPUProfile, WriteHeapProfile (memProfPath s1 name)] s3"
      using True by (simp_all add: s2_def s1_def s4_def)
    show ?thesis
      using rate s'(1) True
      unfolding executeFunctionWithProfiling_def Let_def w s3_def s2_def s1_def
      by (simp add: p split_beta)
  next
    case False
    then have p: "nextCount s name mod samplingRate s \<noteq> 0" by (simp add: prof_def)
    show ?thesis
      using rate s'(1) False
      unfolding executeFunctionWithProfiling_def Let_def s4_def s3_def s2_def s1_def
      by (simp add: p split_beta)
  qed
  show ?thesis
    using ex s'(2-)
    by (cases prof) (simp_all add: s4_def s3_def s2_def s1_def prof_def)
qed


lemma cpuProfPath_inj: "cpuProfPath s a = cpuProfPath s b \<longleftrightarrow> a = b"
  by (simp add: cpuProfPath_def filepath_Join_def)

lemma cpuProfPath_cong: "basePath s' = basePath s \<Longrightarrow> cpuProfPath s' n = cpuProfPath s n"
  by (simp add: cpuProfPath_def)

lemma exec_counts:
  assumes wf: "wf_table s" and rate: "samplingRate s \<noteq> 0"
  shows "\<exists>s'. executeFunctionWithProfiling name fn pr s = Inr (fst (fn (world s)), s')
      \<and> wf_table s' \<and> samplingRate s' = samplingRate s \<and> basePath s' = basePath s
      \<and> counterOf s' n = (if n = name then counterOf s n + 1 else counterOf s n)
      \<and> profiledCount n s' = profiledCount n s
           + (if n = name \<and> (counterOf s n + 1) mod samplingRate s = 0 then 1 else 0)
      \<and> invokedCount n s' = invokedCount n s + (if n = name then 1 else 0)"
proof -
  obtain s' where s': "executeFunctionWithProfiling name fn pr s = Inr (fst (fn (world s)), s')"
      "wf_table s'" "callCounters s' = (callCounters s)(name \<mapsto> nextCount s name)"
      "samplingRate s' = samplingRate s" "basePath s' = basePath s"
      "events s' = events s
          @ (if nextCount s name mod samplingRate s = 0
             then [MkdirAll (basePath s @ ''/profiles''), StartCPUProfile (cpuProfPath s name)]
                  @ (if cpuProfileFails pr then [Log CPUProfileStartFailed] else [])
             else [])
          @ [Invoke name]
          @ (if nextCount s name mod samplingRate s = 0
             then [StopCPUProfile, WriteHeapProfile (memProfPath s name)] else [])"
    using exec_step [OF wf rate, of name fn pr] by blast
  have c: "counterOf s' n = (if n = name then counterOf s n + 1 else counterOf s n)"
    by (simp add: counterOf_def s'(3) nextCount_def)
  have p: "profiledCount n s' = profiledCount n s
           + (if n = name \<and> (counterOf s n + 1) mod samplingRate s = 0 then 1 else 0)"
    by (auto simp: profiledCount_def s'(6) cpuProfPath_cong [OF s'(5)] cpuProfPath_inj
        nextCount_def counterOf_def)
  have i: "invokedCount n s' = invokedCount n s + (if n = name then 1 else 0)"
    by (auto simp: invokedCount_def s'(6))
  show ?thesis using s'(1,2,4,5) c p i by blast
qed

lemma traceAll_counts:
  assumes "wf_table s" and "samplingRate s \<noteq> 0"
  shows "\<exists>s'. traceAll calls s = Inr s'
      \<and> wf_table s' \<and> samplingRate s' = samplingRate s \<and> basePath s' = basePath s
      \<and> counterOf s' n = counterOf s n + of_nat (length (filter (\<lambda>c. fst c = n) calls))
      \<and> profiledCount n s' = profiledCount n s
           + hits (samplingRate s) (counterOf s n) (length (filter (\<lambda>c. fst c = n) calls))
      \<and> invokedCount n s' = invokedCount n s + length (filter (\<lambda>c. fst c = n) calls)"
  using assms
proof (induction calls arbitrary: s)
  case Nil
  then show ?case by simp
next
  case (Cons c calls)
  obtain name fn pr where c: "c = (name, fn, pr)" by (cases c) auto
  obtain s1 where s1: "executeFunctionWithProfiling name fn pr s = Inr (fst (fn (world s)), s1)"
      "wf_table s1" "samplingRate s1 = samplingRate s" "basePath s1 = basePath s"
      "counterOf s1 n = (if n = name then counterOf s n + 1 else counterOf s n)"
      "profiledCount n s1 = profiledCount n s
           + (if n = name \<and> (counterOf s n + 1) mod samplingRate s = 0 then 1 else 0)"
      "invokedCount n s1 = invokedCount n s + (if n = name then 1 else 0)"
    using exec_counts [OF Cons.prems, of name fn pr n] by blast
  have r1: "samplingRate s1 \<noteq> 0" using s1(3) Cons.prems(2) by simp
  obtain s' where s': "traceAll calls s1 = Inr s'"
      "wf_table s'" "samplingRate s' = samplingRate s1" "basePath s' = basePath s1"
      "counterOf s' n = counterOf s1 n + of_nat (length (filter (\<lambda>c. fst c = n) calls))"
      "profiledCount n s' = profiledCount n s1
           + hits (samplingRate s1) (counterOf s1 n) (length (filter (\<lambda>c. fst c = n) calls))"
      "invokedCount n s' = invokedCount n s1 + length (filter (\<lambda>c. fst c = n) calls)"
    using Cons.IH [OF s1(2) r1] by blast
  have t: "traceAll (c # calls) s = Inr s'"
    by (simp add: c s1(1) s'(1))
  show ?case
    using t s'(2-) s1(3-) by (auto simp: c)
qed

lemma hits_snoc:
  "hits rate c (Suc k) = hits rate c k + (if (c + of_nat (Suc k)) mod rate = 0 then 1 else 0)"
proof (induction k arbitrary: c)
  case 0
  then show ?case by simp
next
  case (Suc k)
  have "hits rate c (Suc (Suc k)) = (if (c + 1) mod rate = 0 then 1 else 0) + hits rate (c + 1) (Suc k)"
    by simp
  also have "hits rate (c + 1) (Suc k) = hits rate (c + 1) k + (if (c + 1 + of_nat (Suc k)) mod rate = 0 then 1 else 0)"
    by (rule Suc.IH)
  finally show ?case by (simp add: add.assoc add.commute add.left_commute)
qed

lemma word_mod_zero_iff:
  fixes w rate :: uint64
  shows "w mod rate = 0 \<longleftrightarrow> unat w mod unat rate = 0"
  by (metis unat_eq_zero unat_mod)

lemma hits_div:
  assumes "rate \<noteq> 0" and "k < 2 ^ 64"
  shows "hits rate 0 k = k div unat rate"
  using assms(2)
proof (induction k)
  case 0
  then show ?case by simp
next
  case (Suc k)
  have u: "unat (of_nat (Suc k) :: uint64) = Suc k"
    using Suc.prems by (simp add: unat_of_nat del: of_nat_Suc)
  have "hits rate 0 (Suc k) = hits rate 0 k + (if (of_nat (Suc k) :: uint64) mod rate = 0 then 1 else 0)"
    using hits_snoc [of rate 0 k] by simp
  also have "\<dots> = k div unat rate + (if Suc k mod unat rate = 0 then 1 else 0)"
    using Suc by (simp add: word_mod_zero_iff u del: of_nat_Suc)
  also have "\<dots> = Suc k div unat rate"
    by (simp add: div_Suc)
  finally show ?case .
qed

lemma hits_wrap:
  assumes "rate \<noteq> 0"
  shows "hits rate 0 (2 ^ 64) = (2 ^ 64 - 1) div unat rate + 1"
proof -
  have "(2::nat) ^ 64 = Suc (2 ^ 64 - 1)" by simp
  then have "hits rate 0 (2 ^ 64) = hits rate 0 (Suc (2 ^ 64 - 1))" by simp
  also have "\<dots> = hits rate 0 (2 ^ 64 - 1) + (if (of_nat (Suc (2 ^ 64 - 1)) :: uint64) mod rate = 0 then 1 else 0)"
    using hits_snoc [of rate 0 "2 ^ 64 - 1"] by simp
  also have "(of_nat (Suc (2 ^ 64 - 1)) :: uint64) = 0" by simp
  also have "hits rate 0 (2 ^ 64 - 1) = (2 ^ 64 - 1) div unat rate"
    by (rule hits_div [OF assms]) simp
  finally show ?thesis by simp
qed


lemma unat_of_positive:
  fixes q :: go_int
  assumes "1 \<le> sint q"
  shows "unat q = nat (sint q)" and "q \<noteq> 0"
proof -
  have "sint q < 2 ^ 63" using sint_lt [of q] by simp
  then have "take_bit 64 (sint q) = sint q"
    using assms by (intro take_bit_int_eq_self) auto
  then have "uint q = sint q" by (simp add: uint_sint)
  then show "unat q = nat (sint q)" by (metis nat_uint_eq)
  show "q \<noteq> 0" using assms by auto
qed

lemma SetSamplingRate_rate:
  "samplingRate (SetSamplingRate q s) = (if sint q < 1 then 1 else q)"
  "samplingRate (SetSamplingRate q s) \<noteq> 0"
  "unat (samplingRate (SetSamplingRate q s)) = nat (max 1 (sint q))"
  using unat_of_positive [of q]
  by (auto simp: SetSamplingRate_def Let_def max_def)

lemma SetSamplingRate_fields [simp]:
  "functionMetrics (SetSamplingRate q s) = functionMetrics s" "heap (SetSamplingRate q s) = heap s"
  "nextAddr (SetSamplingRate q s) = nextAddr s" "basePath (SetSamplingRate q s) = basePath s"
  "callCounters (SetSamplingRate q s) = callCounters s"
  "world (SetSamplingRate q s) = world s" "events (SetSamplingRate q s) = events s"
  by (simp_all add: SetSamplingRate_def Let_def)

lemma wf_table_init [simp]: "wf_table (init_profiler base w)"
  by (simp add: wf_table_def init_profiler_def)

lemma wf_table_SetSamplingRate [simp]: "wf_table (SetSamplingRate q s) = wf_table s"
  by (simp add: wf_table_def)

lemma exec_metrics:
  assumes "executeFunctionWithProfiling name fn pr s = Inr (res, s')"
  shows "metricsOf s' name = Some
     (let shouldProfile = (nextCount s name mod samplingRate s = 0) in
      case metricsOf s name of
        Some m \<Rightarrow>
          if shouldProfile
          then m\<lparr>FunctionLastRanAt := startedAt pr, ExecutionTime := elapsedTime pr,
                 GoroutineCount := goroutineDelta pr, MemoryUsage := memoryDelta True pr,
                 CPUProfileFilePath := cpuProfPath s name, MemProfileFilePath := memProfPath s name\<rparr>
          else m\<lparr>FunctionLastRanAt := startedAt pr, ExecutionTime := elapsedTime pr,
                 GoroutineCount := goroutineDelta pr\<rparr>
      | None \<Rightarrow>
          \<lparr>FunctionLastRanAt = startedAt pr,
           CPUProfileFilePath = (if shouldProfile then cpuProfPath s name else []),
           MemProfileFilePath = (if shouldProfile then memProfPath s name else []),
           MemoryUsage = memoryDelta shouldProfile pr,
           GoroutineCount = goroutineDelta pr,
           ExecutionTime = elapsedTime pr\<rparr>)"
  using assms
  unfolding executeFunctionWithProfiling_def Let_def recordMetrics_def metricsOf_def
  by (auto simp: split_beta update_conv' split: if_splits option.splits sum.splits)

text \<open>
  C1. The first invocation of an identity sets its counter to 1, every invocation
  increments it, and an invocation is profiled exactly when the new counter is a
  multiple of the rate. So among the first \<open>N\<close> invocations of an identity, with
  \<open>N\<close> below \<open>2 ^ 64\<close> (the counter is a \<^verbatim>\<open>uint64\<close>), exactly \<open>N div r\<close> are profiled,
  whatever other identities are traced in between. \<open>SetSamplingRate\<close> stores its
  argument, or 1 when the argument is below 1, so the rate \<open>r\<close> is at least 1 and the
  rate 1 profiles every call; with the default rate 100 that is \<open>N div 100\<close>, none of
  the first 99.
\<close>

theorem C1_sampling_floor:
  assumes "wf_table s" and "callCounters s name = None"
      and "length (filter (\<lambda>c. fst c = name) calls) < 2 ^ 64"
  shows "samplingRate (SetSamplingRate q s) = (if sint q < 1 then 1 else q)
     \<and> (\<exists>s'. traceAll calls (SetSamplingRate q s) = Inr s'
          \<and> invokedCount name s' = invokedCount name s + length (filter (\<lambda>c. fst c = name) calls)
          \<and> counterOf s' name = of_nat (length (filter (\<lambda>c. fst c = name) calls))
          \<and> profiledCount name s' = profiledCount name s
               + length (filter (\<lambda>c. fst c = name) calls) div nat (max 1 (sint q)))
     \<and> (samplingRate s = 100 \<longrightarrow>
         (\<exists>s'. traceAll calls s = Inr s'
          \<and> profiledCount name s' = profiledCount name s
               + length (filter (\<lambda>c. fst c = name) calls) div 100))"
proof -
  let ?N = "length (filter (\<lambda>c. fst c = name) calls)"
  let ?t = "SetSamplingRate q s"
  have c0: "counterOf s name = 0" "counterOf ?t name = 0"
    using assms(2) by (simp_all add: counterOf_def)
  have wf: "wf_table ?t" using assms(1) by simp
  obtain s' where s': "traceAll calls ?t = Inr s'"
      "counterOf s' name = counterOf ?t name + of_nat ?N"
      "profiledCount name s' = profiledCount name ?t + hits (samplingRate ?t) (counterOf ?t name) ?N"
      "invokedCount name s' = invokedCount name ?t + ?N"
    using traceAll_counts [OF wf SetSamplingRate_rate(2), of calls name] by blast
  have h: "hits (samplingRate ?t) 0 ?N = ?N div nat (max 1 (sint q))"
    using hits_div [OF SetSamplingRate_rate(2) assms(3), of q s]
    by (simp only: SetSamplingRate_rate(3))
  have pc: "profiledCount name ?t = profiledCount name s" "invokedCount name ?t = invokedCount name s"
    by (simp_all add: profiledCount_def invokedCount_def cpuProfPath_def)
  have A: "\<exists>s'. traceAll calls ?t = Inr s'
          \<and> invokedCount name s' = invokedCount name s + ?N
          \<and> counterOf s' name = of_nat ?N
          \<and> profiledCount name s' = profiledCount name s + ?N div nat (max 1 (sint q))"
    using s' h c0 pc by auto
  have B: "\<exists>s'. traceAll calls s = Inr s'
          \<and> profiledCount name s' = profiledCount name s + ?N div 100" if r: "samplingRate s = 100"
  proof -
    have nz: "samplingRate s \<noteq> 0" using r by simp
    obtain s2 where s2: "traceAll calls s = Inr s2"
      "profiledCount name s2 = profiledCount name s + hits (samplingRate s) (counterOf s name) ?N"
      using traceAll_counts [OF assms(1) nz, of calls name] by blast
    have "hits (samplingRate s) 0 ?N = ?N div 100"
      using hits_div [OF nz assms(3)] by (simp add: r)
    then show ?thesis using s2 c0 by auto
  qed
  show ?thesis using A B SetSamplingRate_rate(1) by blast
qed

lemma filter_fst_replicate [simp]:
  "filter (\<lambda>c. fst c = n) (replicate k (n, x)) = replicate k (n, x)"
  by simp

theorem C1_sampling_floor_witness:
  "profiledAfter ''f'' (replicate 7 (''f'', Pair (), sampleProbe)) (SetSamplingRate 3 (init_profiler [] ())) = Some 2
   \<and> profiledAfter ''f'' (replicate 7 (''f'', Pair (), sampleProbe)) (SetSamplingRate 0 (init_profiler [] ())) = Some 7
   \<and> profiledAfter ''f'' (replicate 99 (''f'', Pair (), sampleProbe)) (init_profiler [] ()) = Some 0"
proof -
  let ?s = "init_profiler [] () :: unit profiler"
  have wf: "wf_table ?s" by simp
  have none: "callCounters ?s ''f'' = None" by (simp add: init_profiler_def)
  have pc: "profiledCount ''f'' ?s = 0" by (simp add: profiledCount_def init_profiler_def)
  have r: "samplingRate ?s = 100" by (simp add: init_profiler_def)
  have l7: "length (filter (\<lambda>c. fst c = ''f'') (replicate 7 (''f'', Pair (), sampleProbe))) < 2 ^ 64"
    by simp
  have l99: "length (filter (\<lambda>c. fst c = ''f'') (replicate 99 (''f'', Pair (), sampleProbe))) < 2 ^ 64"
    by simp
  have a: "profiledAfter ''f'' (replicate 7 (''f'', Pair (), sampleProbe)) (SetSamplingRate 3 ?s) = Some 2"
    using C1_sampling_floor [OF wf none l7, of 3] by (auto simp: profiledAfter_def pc)
  have b: "profiledAfter ''f'' (replicate 7 (''f'', Pair (), sampleProbe)) (SetSamplingRate 0 ?s) = Some 7"
    using C1_sampling_floor [OF wf none l7, of 0] by (auto simp: profiledAfter_def pc)
  have c: "profiledAfter ''f'' (replicate 99 (''f'', Pair (), sampleProbe)) ?s = Some 0"
    using C1_sampling_floor [OF wf none l99, of 0] r by (auto simp: profiledAfter_def pc)
  show ?thesis using a b c by simp
qed

text \<open>
  C1 as the specification states it, for every \<open>N\<close>, fails once the counter wraps around: the
  invocation number \<open>2 ^ 64\<close> brings the counter back to 0, which is a multiple of every
  rate. At the rate 3 one more invocation is profiled than \<open>2 ^ 64 div 3\<close>.
\<close>

theorem C1_wraparound_counterexample:
  "profiledAfter ''f'' (replicate (2 ^ 64) (''f'', Pair (), sampleProbe)) (SetSamplingRate 3 (init_profiler [] ()))
     = Some (2 ^ 64 div 3 + 1)"
proof -
  let ?t = "SetSamplingRate 3 (init_profiler [] ()) :: unit profiler"
  let ?calls = "replicate (2 ^ 64) (''f'', Pair () :: unit \<Rightarrow> unit \<times> unit, sampleProbe)"
  have r: "samplingRate ?t = 3" by (simp add: SetSamplingRate_def)
  have wf: "wf_table ?t" by simp
  have nz: "samplingRate ?t \<noteq> 0" by (simp add: r)
  obtain s' where s': "traceAll ?calls ?t = Inr s'"
      "profiledCount ''f'' s' = profiledCount ''f'' ?t
         + hits (samplingRate ?t) (counterOf ?t ''f'') (length (filter (\<lambda>c. fst c = ''f'') ?calls))"
    using traceAll_counts [OF wf nz, of ?calls "''f''"] by blast
  have "hits 3 0 (2 ^ 64) = (2 ^ 64 - 1) div unat (3 :: uint64) + 1"
    by (rule hits_wrap) simp
  then have "hits 3 0 (2 ^ 64) = 2 ^ 64 div 3 + 1" by simp
  moreover have "profiledCount ''f'' ?t = 0" "counterOf ?t ''f'' = 0"
    by (simp_all add: profiledCount_def counterOf_def init_profiler_def)
  moreover have "length (filter (\<lambda>c. fst c = ''f'') ?calls) = 2 ^ 64"
    by simp
  ultimately have "profiledCount ''f'' s' = 2 ^ 64 div 3 + 1"
    using s'(2) by (simp only: r add_0)
  then show ?thesis using s'(1) by (simp add: profiledAfter_def)
qed


lemma goroutineDelta_nonneg: "0 \<le> sint (goroutineDelta pr)"
  by (simp add: goroutineDelta_def Let_def)

lemma sint_sub_small:
  fixes a b :: go_int
  assumes "0 \<le> sint a" "0 \<le> sint b"
  shows "sint (a - b) = sint a - sint b"
proof -
  have "sint a < 2 ^ 63" "sint b < 2 ^ 63"
    using sint_lt [of a] sint_lt [of b] by simp_all
  then have "- (2 ^ 63) \<le> sint a - sint b" "sint a - sint b < 2 ^ 63"
    using assms by simp_all
  then have "signed_take_bit 63 (sint a - sint b) = sint a - sint b"
    by (intro signed_take_bit_int_eq_self) simp_all
  then show ?thesis by (simp add: sint_word_ariths)
qed

lemma goroutineDelta_clamp:
  assumes "0 \<le> sint (goroutinesBefore pr)" "0 \<le> sint (goroutinesAfter pr)"
  shows "sint (goroutineDelta pr) = max 0 (sint (goroutinesAfter pr) - sint (goroutinesBefore pr))"
  using sint_sub_small [OF assms(2) assms(1)]
  by (simp add: goroutineDelta_def Let_def max_def)

lemma memoryDelta_floor:
  "unat (memoryDelta True pr) = unat (allocAfter pr) - unat (allocBefore pr)"
  by (auto simp: memoryDelta_def unat_sub word_le_nat_alt)

text \<open>
  C4. In every state the program reaches, a traced invocation returns, and afterwards,
  profiled or not, the identity has a record whose goroutine delta is not negative: it is the difference of the two goroutine
  counts, and 0 when the count went down. Its memory delta is never a wrapped-around
  negative difference: on a profiled invocation it is the allocation after the call
  minus the allocation before, and 0 when the allocation went down; on an invocation
  that is not profiled it is the value the record had, or 0 in a new record.
\<close>

theorem C4_deltas_never_negative:
  assumes "wf_table s" and "samplingRate s \<noteq> 0"
  shows "\<exists>s' m'. executeFunctionWithProfiling name fn pr s = Inr (fst (fn (world s)), s')
     \<and> metricsOf s' name = Some m'
     \<and> 0 \<le> sint (GoroutineCount m')
     \<and> (0 \<le> sint (goroutinesBefore pr) \<and> 0 \<le> sint (goroutinesAfter pr) \<longrightarrow>
          sint (GoroutineCount m') = max 0 (sint (goroutinesAfter pr) - sint (goroutinesBefore pr)))
     \<and> (if nextCount s name mod samplingRate s = 0
        then unat (MemoryUsage m') = unat (allocAfter pr) - unat (allocBefore pr)
        else MemoryUsage m' = (case metricsOf s name of None \<Rightarrow> 0 | Some m \<Rightarrow> MemoryUsage m))"
proof -
  obtain s' where e: "executeFunctionWithProfiling name fn pr s = Inr (fst (fn (world s)), s')"
    using exec_step [OF assms, of name fn pr] by blast
  show ?thesis
    using e exec_metrics [OF e] goroutineDelta_nonneg [of pr] goroutineDelta_clamp [of pr]
      memoryDelta_floor [of pr]
    by (auto simp: Let_def memoryDelta_def split: option.splits)
qed

theorem C4_deltas_never_negative_witness:
  "map_option GoroutineCount
     (metricsAfter ''f'' (Pair ()) sampleProbe (SetSamplingRate 1 (init_profiler [] ()))) = Some 0
   \<and> map_option MemoryUsage
     (metricsAfter ''f'' (Pair ()) sampleProbe (SetSamplingRate 1 (init_profiler [] ()))) = Some 0"
proof -
  let ?s = "SetSamplingRate 1 (init_profiler [] ()) :: unit profiler"
  have wf: "wf_table ?s" by simp
  have r: "samplingRate ?s = 1" by (simp add: SetSamplingRate_def)
  have nz: "samplingRate ?s \<noteq> 0" by (simp add: r)
  have p: "nextCount ?s ''f'' mod samplingRate ?s = 0"
    by (simp add: r)
  have b: "0 \<le> sint (goroutinesBefore sampleProbe)" "0 \<le> sint (goroutinesAfter sampleProbe)"
    by (simp_all add: sampleProbe_def)
  obtain s' m' where m': "executeFunctionWithProfiling ''f'' (Pair ()) sampleProbe ?s
      = Inr (fst (Pair () (world ?s)), s')"
     "metricsOf s' ''f'' = Some m'"
     "sint (GoroutineCount m') = max 0 (sint (goroutinesAfter sampleProbe) - sint (goroutinesBefore sampleProbe))"
     "unat (MemoryUsage m') = unat (allocAfter sampleProbe) - unat (allocBefore sampleProbe)"
    using C4_deltas_never_negative [OF wf nz, of "''f''" "Pair ()" sampleProbe] p b by auto
  have "sint (GoroutineCount m') = 0" "unat (MemoryUsage m') = 0"
    using m'(3,4) by (simp_all add: sampleProbe_def)
  then have "GoroutineCount m' = 0" "MemoryUsage m' = 0"
    by (simp_all add: unat_eq_zero signed_eq_0_iff)
  then show ?thesis using m'(1,2) by (simp add: metricsAfter_def)
qed

lemma exec_others:
  assumes wf: "wf_table s" and e: "executeFunctionWithProfiling name fn pr s = Inr (res, s')"
      and other: "other \<noteq> name"
  shows "metricsOf s' other = metricsOf s other"
proof -
  from e obtain t cpu mem prof where
     t: "recordMetrics name prof cpu mem pr t = Inr s'"
        "heap t = heap s" "nextAddr t = nextAddr s" "functionMetrics t = functionMetrics s"
    unfolding executeFunctionWithProfiling_def Let_def
    by (auto simp: split_beta split: if_splits sum.splits)
  have mt: "metricsOf t other = metricsOf s other"
    by (simp add: metricsOf_def t split: option.splits)
  have wft: "wf_table t" using wf by (simp add: wf_table_def t)
  show ?thesis
  proof (cases "map_of (functionMetrics t) name")
    case None
    have "metricsOf s' other = metricsOf t other"
    proof (cases "map_of (functionMetrics t) other")
      case None
      then show ?thesis
        using t(1) \<open>map_of (functionMetrics t) name = None\<close> other
        by (auto simp: recordMetrics_def metricsOf_def update_conv')
    next
      case (Some q)
      then have "q < nextAddr t" using wf_table_lookup [OF wft Some] by simp
      then show ?thesis
        using t(1) \<open>map_of (functionMetrics t) name = None\<close> other Some
        by (auto simp: recordMetrics_def metricsOf_def update_conv')
    qed
    then show ?thesis using mt by simp
  next
    case (Some p)
    have "metricsOf s' other = metricsOf t other"
    proof (cases "map_of (functionMetrics t) other")
      case None
      then show ?thesis
        using t(1) Some by (auto simp: recordMetrics_def metricsOf_def Let_def split: option.splits)
    next
      case q: (Some q)
      have "(name, p) \<in> set (functionMetrics t)" "(other, q) \<in> set (functionMetrics t)"
        using Some q by (auto dest: map_of_SomeD)
      moreover have "inj_on snd (set (functionMetrics t))"
        using wft by (simp add: wf_table_def distinct_map)
      ultimately have "q \<noteq> p" using other by (fastforce simp: inj_on_def)
      then show ?thesis
        using t(1) Some q by (auto simp: recordMetrics_def metricsOf_def Let_def split: option.splits)
    qed
    then show ?thesis using mt by simp
  qed
qed

text \<open>
  C5. In every state the program reaches, an invocation that is not profiled returns,
  and it writes the time of the run, the elapsed time and the goroutine delta of the
  identity's record. Where the identity already has a record, the memory delta and the
  two profile paths keep their values; where it has none, the new record has the memory
  delta 0 and empty profile paths. The records of all other identities stay as they
  were.
\<close>

theorem C5_off_sample_frame:
  assumes "wf_table s" and "samplingRate s \<noteq> 0"
      and "nextCount s name mod samplingRate s \<noteq> 0"
  shows "\<exists>s' m'. executeFunctionWithProfiling name fn pr s = Inr (fst (fn (world s)), s')
     \<and> metricsOf s' name = Some m'
     \<and> FunctionLastRanAt m' = startedAt pr
     \<and> ExecutionTime m' = elapsedTime pr
     \<and> GoroutineCount m' = goroutineDelta pr
     \<and> (case metricsOf s name of
          Some m \<Rightarrow> MemoryUsage m' = MemoryUsage m
                  \<and> CPUProfileFilePath m' = CPUProfileFilePath m
                  \<and> MemProfileFilePath m' = MemProfileFilePath m
        | None \<Rightarrow> MemoryUsage m' = 0 \<and> CPUProfileFilePath m' = [] \<and> MemProfileFilePath m' = [])
     \<and> (\<forall>other. other \<noteq> name \<longrightarrow> metricsOf s' other = metricsOf s other)"
proof -
  obtain s' where e: "executeFunctionWithProfiling name fn pr s = Inr (fst (fn (world s)), s')"
    using exec_step [OF assms(1,2), of name fn pr] by blast
  have "\<forall>other. other \<noteq> name \<longrightarrow> metricsOf s' other = metricsOf s other"
    using exec_others [OF assms(1) e] by blast
  then show ?thesis
    using e exec_metrics [OF e] assms(3)
    by (auto simp: Let_def memoryDelta_def split: option.splits)
qed

theorem C5_off_sample_frame_witness:
  "metricsAfter ''f'' (Pair ()) sampleProbe sampleState =
     Some \<lparr>FunctionLastRanAt = 10, CPUProfileFilePath = ''c.prof'',
           MemProfileFilePath = ''m.prof'', MemoryUsage = 7, GoroutineCount = 0,
           ExecutionTime = 2\<rparr>"
proof -
  have wf: "wf_table sampleState" by (simp add: wf_table_def sampleState_def)
  have nz: "samplingRate sampleState \<noteq> 0" by (simp add: sampleState_def)
  have np: "nextCount sampleState ''f'' mod samplingRate sampleState \<noteq> 0"
    by (simp add: nextCount_def sampleState_def)
  have m0: "metricsOf sampleState ''f'' = Some \<lparr>FunctionLastRanAt = 1, CPUProfileFilePath = ''c.prof'',
                    MemProfileFilePath = ''m.prof'', MemoryUsage = 7, GoroutineCount = 1,
                    ExecutionTime = 1\<rparr>"
    by (simp add: metricsOf_def sampleState_def)
  have g: "goroutineDelta sampleProbe = 0"
    by (simp add: goroutineDelta_def sampleProbe_def)
  obtain s' m' where m': "executeFunctionWithProfiling ''f'' (Pair ()) sampleProbe sampleState
      = Inr (fst (Pair () (world sampleState)), s')"
     "metricsOf s' ''f'' = Some m'" "FunctionLastRanAt m' = startedAt sampleProbe"
     "ExecutionTime m' = elapsedTime sampleProbe" "GoroutineCount m' = goroutineDelta sampleProbe"
     "MemoryUsage m' = 7" "CPUProfileFilePath m' = ''c.prof''" "MemProfileFilePath m' = ''m.prof''"
    using C5_off_sample_frame [OF wf nz np, of "Pair ()" sampleProbe] by (auto simp: m0)
  then have "m' = \<lparr>FunctionLastRanAt = 10, CPUProfileFilePath = ''c.prof'',
           MemProfileFilePath = ''m.prof'', MemoryUsage = 7, GoroutineCount = 0,
           ExecutionTime = 2\<rparr>"
    by (cases m') (simp add: g g [unfolded sampleProbe_def] sampleProbe_def)
  then show ?thesis using m'(1,2) by (simp add: metricsAfter_def)
qed

lemma copyRecords_spec:
  assumes "list_all (\<lambda>(k, p). p < nextAddr s \<and> heap s p \<noteq> None) kvs"
      and "distinct (map fst kvs)"
  shows "\<exists>result' s'. copyRecords kvs result s = Inr (result', s')
     \<and> functionMetrics s' = functionMetrics s \<and> samplingRate s' = samplingRate s
     \<and> callCounters s' = callCounters s \<and> events s' = events s \<and> world s' = world s
     \<and> basePath s' = basePath s
     \<and> nextAddr s \<le> nextAddr s'
     \<and> (\<forall>a < nextAddr s. heap s' a = heap s a)
     \<and> (\<forall>k. case map_of kvs k of
               None \<Rightarrow> map_of result' k = map_of result k
             | Some p \<Rightarrow> (\<exists>p'. map_of result' k = Some p' \<and> nextAddr s \<le> p' \<and> p' < nextAddr s'
                            \<and> heap s' p' = heap s p))"
  using assms
proof (induction kvs arbitrary: result s)
  case Nil
  then show ?case by simp
next
  case (Cons kv rest)
  obtain k0 v0 where kv: "kv = (k0, v0)" by (cases kv) auto
  from Cons.prems kv obtain copied where v0: "v0 < nextAddr s" "heap s v0 = Some copied"
    by auto
  define n where "n = nextAddr s"
  define s1 where "s1 = s\<lparr>heap := (heap s)(n \<mapsto> copied), nextAddr := Suc n\<rparr>"
  define result1 where "result1 = AList.update k0 n result"
  have step: "copyRecords (kv # rest) result s = copyRecords rest result1 s1"
    by (simp add: kv v0 s1_def result1_def n_def)
  have pre1: "list_all (\<lambda>(k, p). p < nextAddr s1 \<and> heap s1 p \<noteq> None) rest"
    using Cons.prems(1) by (auto simp: list_all_iff s1_def n_def)
  have pre2: "distinct (map fst rest)" using Cons.prems(2) by simp
  obtain result' s' where IH: "copyRecords rest result1 s1 = Inr (result', s')"
     "functionMetrics s' = functionMetrics s1" "samplingRate s' = samplingRate s1"
     "callCounters s' = callCounters s1" "events s' = events s1" "world s' = world s1"
     "basePath s' = basePath s1"
     "nextAddr s1 \<le> nextAddr s'"
     "\<forall>a < nextAddr s1. heap s' a = heap s1 a"
     "\<forall>k. case map_of rest k of
               None \<Rightarrow> map_of result' k = map_of result1 k
             | Some p \<Rightarrow> (\<exists>p'. map_of result' k = Some p' \<and> nextAddr s1 \<le> p' \<and> p' < nextAddr s'
                            \<and> heap s' p' = heap s1 p)"
    using Cons.IH [OF pre1 pre2, of result1] by blast
  have below: "\<forall>a < nextAddr s. heap s' a = heap s a"
    using IH(9) by (auto simp: s1_def n_def)
  have k0_rest: "map_of rest k0 = None"
    using Cons.prems(2) kv by (simp add: map_of_eq_None_iff)
  have keys: "case map_of (kv # rest) k of
               None \<Rightarrow> map_of result' k = map_of result k
             | Some p \<Rightarrow> (\<exists>p'. map_of result' k = Some p' \<and> nextAddr s \<le> p' \<and> p' < nextAddr s'
                            \<and> heap s' p' = heap s p)" for k
  proof (cases "k = k0")
    case True
    have "map_of result' k0 = Some n"
      using IH(10) [rule_format, of k0] k0_rest by (simp add: result1_def update_conv')
    moreover have "heap s' n = Some copied"
      using IH(9) by (simp add: s1_def)
    moreover have "n < nextAddr s'" using IH(8) by (simp add: s1_def)
    ultimately show ?thesis using True kv v0 by (simp add: n_def)
  next
    case False
    show ?thesis
    proof (cases "map_of rest k")
      case None
      then show ?thesis
        using IH(10) [rule_format, of k] False kv by (simp add: result1_def update_conv')
    next
      case (Some p)
      then have "(k, p) \<in> set rest" by (rule map_of_SomeD)
      then have "p < n" using Cons.prems(1) by (auto simp: list_all_iff n_def)
      then have "heap s1 p = heap s p" by (simp add: s1_def)
      then show ?thesis
        using IH(10) [rule_format, of k] False kv Some by (auto simp: s1_def n_def)
    qed
  qed
  show ?case
    using step IH(1-8) below keys by (auto simp: s1_def n_def)
qed


lemma snd_set_update: "snd ` set (AList.update k v al) \<subseteq> insert v (snd ` set al)"
  by (induction al) auto

lemma recordMetrics_frame:
  assumes "recordMetrics name prof cpu mem pr s = Inr s'"
      and "a < nextAddr s" and "a \<notin> snd ` set (functionMetrics s)"
  shows "heap s' a = heap s a \<and> a < nextAddr s' \<and> a \<notin> snd ` set (functionMetrics s')"
proof (cases "map_of (functionMetrics s) name")
  case None
  then have s': "s' = s\<lparr>functionMetrics := AList.update name (nextAddr s) (functionMetrics s),
                 heap := (heap s)(nextAddr s \<mapsto>
                   \<lparr>FunctionLastRanAt = startedAt pr,
                    CPUProfileFilePath = cpu,
                    MemProfileFilePath = mem,
                    MemoryUsage = memoryDelta prof pr,
                    GoroutineCount = goroutineDelta pr,
                    ExecutionTime = elapsedTime pr\<rparr>),
                 nextAddr := Suc (nextAddr s)\<rparr>"
    using assms(1) by (simp add: recordMetrics_def)
  have "a \<notin> snd ` set (AList.update name (nextAddr s) (functionMetrics s))"
    using snd_set_update [of name "nextAddr s" "functionMetrics s"] assms(2,3) by auto
  then show ?thesis using assms(2) by (simp add: s')
next
  case (Some p)
  then have "(name, p) \<in> set (functionMetrics s)" by (rule map_of_SomeD)
  then have "p \<in> snd ` set (functionMetrics s)" by force
  then have ne: "a \<noteq> p" using assms(3) by auto
  show ?thesis
    using assms Some ne
    by (auto simp: recordMetrics_def Let_def split: option.splits)
qed

lemma exec_frame:
  assumes "executeFunctionWithProfiling name fn pr s = Inr (res, s')"
      and "a < nextAddr s" and "a \<notin> snd ` set (functionMetrics s)"
  shows "heap s' a = heap s a \<and> a < nextAddr s' \<and> a \<notin> snd ` set (functionMetrics s')"
proof -
  from assms(1) obtain t cpu mem prof where
     t: "recordMetrics name prof cpu mem pr t = Inr s'"
        "heap t = heap s" "nextAddr t = nextAddr s" "functionMetrics t = functionMetrics s"
    unfolding executeFunctionWithProfiling_def Let_def
    by (auto simp: split_beta split: if_splits sum.splits)
  show ?thesis
    using recordMetrics_frame [OF t(1), of a] assms(2,3) by (simp add: t)
qed

lemma traceAll_frame:
  assumes "traceAll calls s = Inr s'"
      and "a < nextAddr s" and "a \<notin> snd ` set (functionMetrics s)"
  shows "heap s' a = heap s a"
  using assms
proof (induction calls arbitrary: s)
  case Nil
  then show ?case by simp
next
  case (Cons c calls)
  obtain name fn pr where c: "c = (name, fn, pr)" by (cases c) auto
  from Cons.prems(1) obtain res s1 where
     s1: "executeFunctionWithProfiling name fn pr s = Inr (res, s1)" "traceAll calls s1 = Inr s'"
    by (auto simp: c split: sum.splits)
  have f: "heap s1 a = heap s a" "a < nextAddr s1" "a \<notin> snd ` set (functionMetrics s1)"
    using exec_frame [OF s1(1) Cons.prems(2,3)] by simp_all
  show ?case using Cons.IH [OF s1(2) f(2,3)] f(1) by simp
qed

text \<open>
  C9. In every state the program reaches, \<open>FunctionTraceDetails\<close> returns a map whose
  records are copies: read through the returned pointers they equal the records of the
  table at the time of the call, the returned pointers are new addresses that the table
  does not hold, the call changes nothing but the allocation of the copies, writing to
  a returned record leaves every record of the table as it was, and no later traced
  invocation changes what the returned pointers show.
\<close>

theorem C9_defensive_copy:
  assumes "wf_table s"
  shows "\<exists>result s1. FunctionTraceDetails s = Inr (result, s1)
      \<and> wf_table s1
      \<and> s1 = s\<lparr>heap := heap s1, nextAddr := nextAddr s1\<rparr>
      \<and> (\<forall>name. metricsOf s1 name = metricsOf s name)
      \<and> (\<forall>name. snapshotOf result s1 name = metricsOf s name)
      \<and> (\<forall>name p. map_of result name = Some p \<longrightarrow> p \<notin> snd ` set (functionMetrics s1))
      \<and> (\<forall>name p m n. map_of result name = Some p \<longrightarrow>
            metricsOf (s1\<lparr>heap := (heap s1)(p \<mapsto> m)\<rparr>) n = metricsOf s1 n)
      \<and> (\<forall>calls s2 name. traceAll calls s1 = Inr s2 \<longrightarrow>
            snapshotOf result s2 name = snapshotOf result s1 name)"
proof -
  have pre: "list_all (\<lambda>(k, p). p < nextAddr s \<and> heap s p \<noteq> None) (functionMetrics s)"
       "distinct (map fst (functionMetrics s))"
    using assms by (simp_all add: wf_table_def)
  obtain result s1 where r: "copyRecords (functionMetrics s) [] s = Inr (result, s1)"
     "functionMetrics s1 = functionMetrics s" "nextAddr s \<le> nextAddr s1"
     "\<forall>a < nextAddr s. heap s1 a = heap s a"
     "\<forall>k. case map_of (functionMetrics s) k of
               None \<Rightarrow> map_of result k = map_of [] k
             | Some p \<Rightarrow> (\<exists>p'. map_of result k = Some p' \<and> nextAddr s \<le> p' \<and> p' < nextAddr s1
                            \<and> heap s1 p' = heap s p)"
    and others: "samplingRate s1 = samplingRate s" "callCounters s1 = callCounters s"
       "events s1 = events s" "world s1 = world s" "basePath s1 = basePath s"
    using copyRecords_spec [OF pre, of "[]"] by blast
  have eq: "s1 = s\<lparr>heap := heap s1, nextAddr := nextAddr s1\<rparr>"
    using r(2) others by (intro profiler.equality) simp_all
  have ptr: "p < nextAddr s" if "p \<in> snd ` set (functionMetrics s)" for p
    using that pre(1) by (auto simp: list_all_iff)
  have wf1: "wf_table s1"
    using assms r(2,3,4) by (auto simp: wf_table_def list_all_iff)
  have same: "metricsOf s1 name = metricsOf s name" for name
  proof (cases "map_of (functionMetrics s) name")
    case None
    then show ?thesis by (simp add: metricsOf_def r(2))
  next
    case (Some p)
    then have "p \<in> snd ` set (functionMetrics s)" by (force dest: map_of_SomeD)
    then show ?thesis using Some r(4) ptr by (simp add: metricsOf_def r(2))
  qed
  have snap: "snapshotOf result s1 name = metricsOf s name" for name
    using r(5) [rule_format, of name]
    by (auto simp: snapshotOf_def metricsOf_def split: option.splits)
  have fresh: "nextAddr s \<le> p \<and> p < nextAddr s1" if "map_of result name = Some p" for name p
    using r(5) [rule_format, of name] that by (auto split: option.splits)
  have notin: "p \<notin> snd ` set (functionMetrics s1)" if "map_of result name = Some p" for name p
    using fresh [OF that] ptr [of p] by (auto simp: r(2))
  have mut: "metricsOf (s1\<lparr>heap := (heap s1)(p \<mapsto> m)\<rparr>) n = metricsOf s1 n"
    if "map_of result name = Some p" for name p m n
  proof (cases "map_of (functionMetrics s1) n")
    case None
    then show ?thesis by (simp add: metricsOf_def)
  next
    case (Some q)
    then have "q \<in> snd ` set (functionMetrics s1)" by (force dest: map_of_SomeD)
    then have "q \<noteq> p" using notin [OF that] by auto
    then show ?thesis using Some by (simp add: metricsOf_def)
  qed
  have later: "snapshotOf result s2 name = snapshotOf result s1 name"
    if "traceAll calls s1 = Inr s2" for calls :: "(string \<times> ('a \<Rightarrow> 'b \<times> 'a) \<times> probe) list" and s2 name
  proof (cases "map_of result name")
    case None
    then show ?thesis by (simp add: snapshotOf_def)
  next
    case (Some p)
    show ?thesis
      using traceAll_frame [OF that, of p] fresh [OF Some] notin [OF Some] Some
      by (simp add: snapshotOf_def)
  qed
  show ?thesis
    unfolding FunctionTraceDetails_def
    using r(1) wf1 eq same snap notin mut later by blast
qed

theorem C9_defensive_copy_witness:
  "detailsThenTrace sampleState [(''f'', Pair (), sampleProbe)] ''f'' =
     Some \<lparr>FunctionLastRanAt = 1, CPUProfileFilePath = ''c.prof'',
           MemProfileFilePath = ''m.prof'', MemoryUsage = 7, GoroutineCount = 1,
           ExecutionTime = 1\<rparr>"
proof -
  let ?calls = "[(''f'', Pair () :: unit \<Rightarrow> unit \<times> unit, sampleProbe)]"
  have wf: "wf_table sampleState" by (simp add: wf_table_def sampleState_def)
  obtain result s1 where r: "FunctionTraceDetails sampleState = Inr (result, s1)"
      "wf_table s1" "s1 = sampleState\<lparr>heap := heap s1, nextAddr := nextAddr s1\<rparr>"
      "\<forall>name. snapshotOf result s1 name = metricsOf sampleState name"
      "\<forall>calls s2 name. traceAll (calls :: (string \<times> (unit \<Rightarrow> unit \<times> unit) \<times> probe) list) s1 = Inr s2 \<longrightarrow>
            snapshotOf result s2 name = snapshotOf result s1 name"
    using C9_defensive_copy [OF wf] by blast
  have "samplingRate s1 = samplingRate sampleState"
    by (subst r(3)) simp
  then have nz: "samplingRate s1 \<noteq> 0" by (simp add: sampleState_def)
  obtain s2 where s2: "traceAll ?calls s1 = Inr s2"
    using traceAll_counts [OF r(2) nz, of ?calls] by blast
  have "snapshotOf result s2 ''f'' = metricsOf sampleState ''f''"
    using r(4,5) s2 by metis
  then show ?thesis
    using r(1) s2 by (simp add: detailsThenTrace_def metricsOf_def sampleState_def)
qed

lemma assignableArg_Some [simp]:
  "assignableArg rt (Some (argType, argValue)) expectedType = AssignableTo rt argType expectedType"
  by (simp add: assignableArg_def)

lemma checkArgs_typed:
  assumes "list_all (\<lambda>a. a \<noteq> None) args" and "length args = length expected"
  shows "if list_all2 (assignableArg rt) args expected
         then checkArgs rt i args expected = Accepted (map (\<lambda>a. snd (the a)) args)
         else \<exists>j ty t. checkArgs rt i args expected = Rejected (ArgumentTypeMismatch j t ty)"
  using assms
proof (induction args arbitrary: expected i)
  case Nil
  then show ?case by simp
next
  case (Cons a args)
  then obtain t ts where e: "expected = t # ts" by (cases expected) auto
  from Cons.prems obtain ty v where a: "a = Some (ty, v)" by auto
  have IH: "if list_all2 (assignableArg rt) args ts
         then checkArgs rt (Suc i) args ts = Accepted (map (\<lambda>a. snd (the a)) args)
         else \<exists>j ty t. checkArgs rt (Suc i) args ts = Rejected (ArgumentTypeMismatch j t ty)"
    using Cons.IH [of ts "Suc i"] Cons.prems by (simp add: e)
  show ?case
    using IH by (auto simp: e a split: if_splits)
qed

text \<open>
  Where every argument carries a runtime type, a call with the wrong number of
  arguments, or with an argument that is not assignable, is rejected before execution:
  the message is logged, nothing but the log changes (no invocation, no counter, no
  record), and \<open>TraceFunctionWithReturns\<close> returns nil.
\<close>

lemma reflective_validation_rejects:
  assumes "list_all (\<lambda>a. a \<noteq> None) args"
      and "length args \<noteq> length (paramTypes fnValue)
           \<or> \<not> list_all2 (assignableArg rt) args (paramTypes fnValue)"
  shows "\<exists>msg. TraceFunctionWithReturns rt (Some fnValue) args pr s = Inr (None, emit [Log msg] s)
       \<and> TraceFunctionWithArgs rt (Some fnValue) args pr s = Inr (emit [Log msg] s)
       \<and> invokedCount n (emit [Log msg] s) = invokedCount n s
       \<and> callCounters (emit [Log msg] s) = callCounters s
       \<and> functionMetrics (emit [Log msg] s) = functionMetrics s
       \<and> heap (emit [Log msg] s) = heap s
       \<and> world (emit [Log msg] s) = world s
       \<and> (msg = ArgumentCountMismatch (length (paramTypes fnValue)) (length args)
           \<or> (\<exists>j t ty. msg = ArgumentTypeMismatch j t ty))"
proof (cases "length args = length (paramTypes fnValue)")
  case False
  then show ?thesis
    by (auto simp: TraceFunctionWithReturns_def TraceFunctionWithArgs_def invokedCount_def)
next
  case True
  then have "\<not> list_all2 (assignableArg rt) args (paramTypes fnValue)" using assms(2) by simp
  then obtain j t ty where "checkArgs rt 0 args (paramTypes fnValue) = Rejected (ArgumentTypeMismatch j t ty)"
    using checkArgs_typed [OF assms(1) True, of rt 0] by auto
  then show ?thesis
    using True
    by (auto simp: TraceFunctionWithReturns_def TraceFunctionWithArgs_def invokedCount_def)
qed

text \<open>
  C6 at a nil argument. \<open>main.add\<close> takes two ints and is traced with nil and a string.
  The second argument's type is not assignable to its parameter, but the loop reaches
  the nil first and panics in \<^verbatim>\<open>reflect.Value.Type\<close>: nothing is logged and the entry
  point does not return.
\<close>

theorem C6_nil_argument_panics:
  "TraceFunctionWithReturns sampleReflection (Some sampleFunc) [None, Some (''string'', 7)]
      sampleProbe (init_profiler [] ()) = Inl ReflectTypeOfZeroValue
   \<and> TraceFunctionWithArgs sampleReflection (Some sampleFunc) [None, Some (''string'', 7)]
      sampleProbe (init_profiler [] ()) = Inl ReflectTypeOfZeroValue"
  by (simp add: TraceFunctionWithReturns_def TraceFunctionWithArgs_def sampleFunc_def)

lemma reflective_rejects_example:
  "TraceFunctionWithReturns sampleReflection (Some sampleFunc) [Some (''int'', 7)]
      sampleProbe (init_profiler [] ())
     = Inr (None, emit [Log (ArgumentCountMismatch 2 1)] (init_profiler [] ()))
   \<and> TraceFunctionWithReturns sampleReflection (Some sampleFunc) [Some (''int'', 7), Some (''string'', 7)]
      sampleProbe (init_profiler [] ())
     = Inr (None, emit [Log (ArgumentTypeMismatch 1 ''int'' ''string'')] (init_profiler [] ()))"
  by (simp add: TraceFunctionWithReturns_def sampleFunc_def sampleReflection_def)

subsection \<open>The invariant of the reachable states\<close>

text \<open>
  The state that a traced invocation leaves does not depend on what the callable returns.
\<close>

lemma exec_state_only:
  "map_sum id snd (executeFunctionWithProfiling name fn pr s)
     = map_sum id snd (executeFunctionWithProfiling name (\<lambda>w. ((), snd (fn w))) pr s)"
  unfolding executeFunctionWithProfiling_def Let_def
  by (auto simp: split_beta split: sum.splits)

lemma FunctionTraceDetails_wf:
  assumes "wf_table s" and "FunctionTraceDetails s = Inr (result, s')"
  shows "wf_table s' \<and> samplingRate s' = samplingRate s"
proof -
  have pre: "list_all (\<lambda>(k, p). p < nextAddr s \<and> heap s p \<noteq> None) (functionMetrics s)"
       "distinct (map fst (functionMetrics s))"
    using assms(1) by (simp_all add: wf_table_def)
  obtain result1 s1 where r: "copyRecords (functionMetrics s) [] s = Inr (result1, s1)"
     "functionMetrics s1 = functionMetrics s" "samplingRate s1 = samplingRate s"
     "nextAddr s \<le> nextAddr s1" "\<forall>a < nextAddr s. heap s1 a = heap s a"
    using copyRecords_spec [OF pre, of "[]"] by blast
  have "s1 = s'" using r(1) assms(2) by (simp add: FunctionTraceDetails_def)
  then show ?thesis
    using assms(1) r(2-5) by (auto simp: wf_table_def list_all_iff)
qed

text \<open>
  Every reachable state has a well-formed table and a sampling rate different from zero:
  the hypotheses of the theorems on \<^term>\<open>executeFunctionWithProfiling\<close> hold wherever
  the program can call it.
\<close>

lemma reachable_wf: "reachable s \<Longrightarrow> wf_table s \<and> samplingRate s \<noteq> 0"
proof (induction rule: reachable.induct)
  case (start base w)
  then show ?case by (simp add: init_profiler_def wf_table_def)
next
  case (rate s q)
  then show ?case by (simp add: SetSamplingRate_rate(2))
next
  case (logged s es)
  then show ?case by simp
next
  case (traced s name f pr res s')
  then show ?case
    using exec_step [of s name "\<lambda>w. ((), f w)" pr] by auto
next
  case (details s result s')
  then show ?case using FunctionTraceDetails_wf [of s result s'] by simp
qed

section \<open>Properties of the query layer\<close>

lemma update_nonempty: "AList.update k v al \<noteq> []" "[] \<noteq> AList.update k v al"
  by (cases al; auto)+

lemma set_update_subset: "set (AList.update k v al) \<subseteq> insert (k, v) (set al)"
  by (induction al) auto

lemma filed_put:
  assumes "filed m"
  shows "filed (AList.update t (AList.update k v vs) m)"
proof -
  have "ws \<noteq> []" if "(a, ws) \<in> set (AList.update t (AList.update k v vs) m)" for a ws
  proof -
    have "(a, ws) = (t, AList.update k v vs) \<or> (a, ws) \<in> set m"
      using that set_update_subset [of t "AList.update k v vs" m] by auto
    then show ?thesis
      using assms update_nonempty [of k v vs] by (auto simp: filed_def list_all_iff)
  qed
  then have "list_all (\<lambda>(t, vs). vs \<noteq> []) (AList.update t (AList.update k v vs) m)"
    by (auto simp: list_all_iff)
  then show ?thesis using assms by (simp add: filed_def distinct_update)
qed

lemma valueAt_put:
  "valueAt (AList.update t (AList.update k v (case map_of m t of None \<Rightarrow> [] | Some vs \<Rightarrow> vs)) m) x
     = (if x = (t, k) then Some v else valueAt m x)"
  by (cases x) (auto simp: valueAt_def update_conv' split: option.splits)

lemma addDataPoints_filed: "filed m \<Longrightarrow> filed (addDataPoints f dps m)"
  by (induction dps arbitrary: m) (simp_all add: Let_def filed_put)

lemma addDataPoints_valueAt:
  "valueAt (addDataPoints f dps m) x =
     (case map_of (rev (writesOf f dps)) x of None \<Rightarrow> valueAt m x | Some v \<Rightarrow> Some v)"
proof (induction dps arbitrary: m)
  case Nil
  then show ?case by (simp add: writesOf_def)
next
  case (Cons dp dps)
  show ?case
    by (simp add: Let_def Cons.IH valueAt_put writesOf_def map_add_def split: option.splits)
qed

lemma collectFields_spec:
  assumes "collectFields sto inst label start end fs m = Inr m'"
  shows "(\<forall>f \<in> set fs. \<exists>dps. GetDataPoints sto inst f [label] start end = Inr dps)
     \<and> (filed m \<longrightarrow> filed m')
     \<and> (\<forall>x. valueAt m' x =
          (case map_of (rev (allWrites
                  (\<lambda>f. case GetDataPoints sto inst f [label] start end of Inl e \<Rightarrow> [] | Inr dps \<Rightarrow> dps)
                  fs)) x of
             None \<Rightarrow> valueAt m x | Some v \<Rightarrow> Some v))"
  using assms
proof (induction fs arbitrary: m)
  case Nil
  then show ?case by simp
next
  case (Cons f fs)
  from Cons.prems obtain dps where
    dps: "GetDataPoints sto inst f [label] start end = Inr dps"
         "collectFields sto inst label start end fs (addDataPoints f dps m) = Inr m'"
    by (auto split: sum.splits)
  note IH = Cons.IH [OF dps(2)]
  show ?case
    using IH dps(1)
    by (auto simp: addDataPoints_filed addDataPoints_valueAt map_add_def split: option.splits)
qed


lemma set_allWrites:
  "set (allWrites pts fs) =
     {((Timestamp p, fieldKey f), Value p) | f p. f \<in> set fs \<and> p \<in> set (pts f)}"
  by (induction fs) (auto simp: writesOf_def)

lemma insort_rendered:
  assumes "strict_mono_on A fmt" and "fst x \<in> A" and "fst ` set ys \<subseteq> A"
  shows "insort_key fst (case x of (t, vs) \<Rightarrow> (fmt t, vs)) (map (\<lambda>(t, vs). (fmt t, vs)) ys)
       = map (\<lambda>(t, vs). (fmt t, vs)) (insort_key fst x ys)"
  using assms(3)
proof (induction ys)
  case Nil
  then show ?case by simp
next
  case (Cons y ys)
  have "fst y \<in> A" using Cons.prems by simp
  then have "fmt (fst x) \<le> fmt (fst y) \<longleftrightarrow> fst x \<le> fst y"
    using strict_mono_on_less_eq [OF assms(1) assms(2), of "fst y"] by simp
  then show ?case
    using Cons by (cases x; cases y) auto
qed

lemma sort_rendered:
  assumes "strict_mono_on A fmt" and "fst ` set xs \<subseteq> A"
  shows "sort_key fst (map (\<lambda>(t, vs). (fmt t, vs)) xs)
       = map (\<lambda>(t, vs). (fmt t, vs)) (sort_key fst xs)"
  using assms(2)
proof (induction xs)
  case Nil
  then show ?case by simp
next
  case (Cons x xs)
  have "fst ` set (sort_key fst xs) \<subseteq> A" using Cons.prems by simp
  then show ?case
    using Cons insort_rendered [OF assms(1), of x "sort_key fst xs"] by simp
qed


lemma filter_same_key:
  assumes "distinct (map f ys)" and "k \<in> set ys"
  shows "filter (\<lambda>x. f k = f x) ys = [k]"
  using assms
proof (induction ys)
  case Nil
  then show ?case by simp
next
  case (Cons y ys)
  show ?case
  proof (cases "k = y")
    case True
    have "filter (\<lambda>x. f y = f x) ys = []"
      using Cons.prems(1) by (auto simp: filter_empty_conv)
    then show ?thesis using True by simp
  next
    case False
    then have "k \<in> set ys" using Cons.prems(2) by simp
    moreover have "f y \<notin> f ` set ys" using Cons.prems(1) by simp
    then have "f k \<noteq> f y" using \<open>k \<in> set ys\<close> by (metis imageI)
    ultimately show ?thesis using Cons by simp
  qed
qed

text \<open>
  Go leaves open the order in which \<^verbatim>\<open>range\<close> visits a map and how \<^verbatim>\<open>sort.Slice\<close>
  places equal keys. Where the rendered times of the rows are distinct this makes no
  difference: every ordering of the rows that is sorted by the rendered time is the
  list the model computes.
\<close>

lemma sorted_rows_unique:
  fixes xs out :: "result_row list"
  assumes "distinct (map fst xs)" and "mset out = mset xs" and "sorted (map fst out)"
  shows "out = sort_key fst xs"
proof -
  have "mset (map fst out) = mset (map fst xs)" using assms(2) by simp
  then have d: "distinct (map fst out)" using assms(1) by (metis mset_eq_imp_distinct_iff)
  have s: "set out = set xs" using assms(2) by (rule mset_eq_setD)
  have "filter (\<lambda>x. fst k = fst x) out = filter (\<lambda>x. fst k = fst x) xs" if "k \<in> set out" for k
    using filter_same_key [OF d that] filter_same_key [OF assms(1), of k] that s by simp
  then show ?thesis
    using properties_for_sort_key [OF assms(2) _ assms(3)] by simp
qed

lemma handler_ok:
  assumes "GetServiceMetricsFromStorage sto env inst r = HttpOK rows"
  shows "\<exists>req startTime endTime m.
       Body r = Some req \<and> parseTime env (StartTime req) = Some startTime
     \<and> parseTime env (EndTime req) = Some endTime
     \<and> collectFields sto inst (GetHostLabel env)
          (Unix (if startTime < serviceStartTime env then serviceStartTime env else startTime))
          (Unix endTime) (FieldName req) [] = Inr m
     \<and> rows = sort_key fst (map (\<lambda>(t, vs). (formatTime env t, vs)) m)"
  using assms
  by (auto simp: GetServiceMetricsFromStorage_def Let_def split: if_splits option.splits sum.splits)

text \<open>
  C3, as the code has it. When the handler answers a request, its rows are the entries
  of the timestamp map sorted by the rendered time. Where the rendering preserves the
  order of the timestamps in the answer (RFC 3339 does for the years 0000 to 9999),
  the rows are strictly ascending by timestamp. Every key of a row is the key of a
  requested field, its alias from \<open>NameMap\<close> or else its name, that has a point with
  exactly the row's timestamp in the window, and the value is that of such a point:
  nothing is filled in. Every point of a requested field is in the row of its own
  timestamp, so two points share a row exactly when their timestamps are equal.
\<close>

theorem C3_query_rows:
  assumes ok: "GetServiceMetricsFromStorage sto env inst r = HttpOK rows"
      and req: "Body r = Some req" "parseTime env (StartTime req) = Some startTime"
               "parseTime env (EndTime req) = Some endTime"
      and mono: "strict_mono_on A (formatTime env)"
      and inA: "\<forall>f \<in> set (FieldName req). \<forall>p \<in> set (pointsOf sto env inst startTime endTime f).
                  Timestamp p \<in> A"
  shows "\<exists>ys. rows = map (\<lambda>(t, vs). (formatTime env t, vs)) ys
     \<and> sorted_wrt (<) (map fst ys)
     \<and> sorted_wrt (<) (map fst rows)
     \<and> (\<forall>t vs k v. (t, vs) \<in> set ys \<and> map_of vs k = Some v \<longrightarrow>
           (\<exists>f \<in> set (FieldName req). \<exists>p \<in> set (pointsOf sto env inst startTime endTime f).
               fieldKey f = k \<and> Timestamp p = t \<and> Value p = v))
     \<and> (\<forall>f \<in> set (FieldName req). \<forall>p \<in> set (pointsOf sto env inst startTime endTime f).
           \<exists>vs. (Timestamp p, vs) \<in> set ys \<and> fieldKey f \<in> dom (map_of vs))"
proof -
  let ?start = "Unix (if startTime < serviceStartTime env then serviceStartTime env else startTime)"
  let ?pts = "\<lambda>f. case GetDataPoints sto inst f [GetHostLabel env] ?start (Unix endTime) of
                    Inl e \<Rightarrow> [] | Inr dps \<Rightarrow> dps"
  let ?W = "allWrites ?pts (FieldName req)"
  let ?h = "\<lambda>(t, vs). (formatTime env t, vs)"
  have pts: "?pts = pointsOf sto env inst startTime endTime"
    by (simp add: pointsOf_def fun_eq_iff)
  obtain m where m: "collectFields sto inst (GetHostLabel env) ?start (Unix endTime) (FieldName req) [] = Inr m"
      "rows = sort_key fst (map ?h m)"
    using handler_ok [OF ok] req by auto
  have filed: "filed m"
    and val: "\<And>x. valueAt m x = map_of (rev ?W) x"
    using collectFields_spec [OF m(1)]
    by (auto simp: filed_def valueAt_def split: option.splits)
  have dist: "distinct (map fst m)" using filed by (simp add: filed_def)
  have W: "set ?W = {((Timestamp p, fieldKey f), Value p) | f p.
             f \<in> set (FieldName req) \<and> p \<in> set (pointsOf sto env inst startTime endTime f)}"
    by (simp add: set_allWrites pts)
  have row_val: "valueAt m (t, k) = map_of vs k" if "(t, vs) \<in> set m" for t vs k
    using that dist by (simp add: valueAt_def)
  have only: "\<exists>f \<in> set (FieldName req). \<exists>p \<in> set (pointsOf sto env inst startTime endTime f).
               fieldKey f = k \<and> Timestamp p = t \<and> Value p = v"
    if "(t, vs) \<in> set m" "map_of vs k = Some v" for t vs k v
  proof -
    have "map_of (rev ?W) (t, k) = Some v" using row_val [OF that(1)] that(2) val by simp
    then have "((t, k), v) \<in> set ?W" by (auto dest: map_of_SomeD)
    then show ?thesis unfolding W by auto
  qed
  have every: "\<exists>vs. (Timestamp p, vs) \<in> set m \<and> fieldKey f \<in> dom (map_of vs)"
    if "f \<in> set (FieldName req)" "p \<in> set (pointsOf sto env inst startTime endTime f)" for f p
  proof -
    have "((Timestamp p, fieldKey f), Value p) \<in> set ?W" unfolding W using that by auto
    then have "(Timestamp p, fieldKey f) \<in> fst ` set (rev ?W)" by force
    then have "map_of (rev ?W) (Timestamp p, fieldKey f) \<noteq> None"
      by (simp add: map_of_eq_None_iff)
    then obtain v where v: "valueAt m (Timestamp p, fieldKey f) = Some v" using val by auto
    then obtain vs where "map_of m (Timestamp p) = Some vs" "map_of vs (fieldKey f) = Some v"
      by (auto simp: valueAt_def split: option.splits)
    then show ?thesis by (auto dest: map_of_SomeD)
  qed
  have keysA: "fst ` set m \<subseteq> A"
  proof
    fix t assume "t \<in> fst ` set m"
    then obtain vs where tv: "(t, vs) \<in> set m" by auto
    moreover have "vs \<noteq> []" using filed tv by (auto simp: filed_def list_all_iff)
    then obtain k v where "map_of vs k = Some v"
      by (cases vs) (auto split: if_splits, metis)
    ultimately show "t \<in> A" using only inA by blast
  qed
  let ?ys = "sort_key fst m"
  have rows: "rows = map ?h ?ys"
    using sort_rendered [OF mono keysA] m(2) by simp
  have "sorted (map fst ?ys)" by (rule sorted_sort_key)
  moreover have "distinct (map fst ?ys)"
    using dist by (simp add: distinct_map)
  ultimately have strict: "sorted_wrt (<) (map fst ?ys)"
    by (simp add: strict_sorted_iff)
  have tsA: "set (map fst ?ys) \<subseteq> A" using keysA by simp
  have fst_rows: "map fst rows = map (formatTime env) (map fst ?ys)"
    by (simp add: rows split_beta)
  have "sorted_wrt (<) (map (formatTime env) ts)"
    if "sorted_wrt (<) ts" "set ts \<subseteq> A" for ts
    using that
    by (induction ts) (auto dest: strict_mono_onD [OF mono])
  from this [OF strict tsA] have strict_rows: "sorted_wrt (<) (map fst rows)"
    by (simp only: fst_rows)
  show ?thesis
    using rows strict strict_rows only every
    by (intro exI [of _ ?ys]) (simp, blast)
qed


lemma sampleFormat_mono: "strict_mono_on {100, 200} sampleFormat"
  by (auto simp: strict_mono_on_def sampleFormat_def less_char_def)


theorem C3_query_rows_witness:
  "GetServiceMetricsFromStorage (fixedStorage samplePoints) sampleEnv (Inr ())
       (sampleRequest [''heap_alloc'', ''goroutines'', ''bytes_sent''])
     = HttpOK [(''1970-01-01T00:01:40Z'', [(''goroutines'', 5)]),
               (''1970-01-01T00:03:20Z'', [(''HeapAlloc'', 7), (''goroutines'', 6)])]
   \<and> sorted_wrt (<) [''1970-01-01T00:01:40Z'', ''1970-01-01T00:03:20Z'']"
proof -
  let ?r = "sampleRequest [''heap_alloc'', ''goroutines'', ''bytes_sent'']"
  let ?req = "\<lparr>FieldName = [''heap_alloc'', ''goroutines'', ''bytes_sent''],
               StartTime = ''1970-01-01T00:00:00Z'', EndTime = ''1970-01-01T01:00:00Z''\<rparr>"
  let ?rows = "[(''1970-01-01T00:01:40Z'', [(''goroutines'', 5)]),
               (''1970-01-01T00:03:20Z'', [(''HeapAlloc'', 7), (''goroutines'', 6)])] :: result_row list"
  have ok: "GetServiceMetricsFromStorage (fixedStorage samplePoints) sampleEnv (Inr ()) ?r = HttpOK ?rows"
    by (simp add: GetServiceMetricsFromStorage_def sampleRequest_def sampleEnv_def sampleParse_def
        GetDataPoints_def fixedStorage_def samplePoints_def Unix_def GetHostLabel_def fieldKey_def
        NameMap_def sampleFormat_def Let_def less_eq_char_def)
  have req: "Body ?r = Some ?req" "parseTime sampleEnv (StartTime ?req) = Some 0"
      "parseTime sampleEnv (EndTime ?req) = Some 3600000000000"
    by (simp_all add: sampleRequest_def sampleEnv_def sampleParse_def)
  have mono: "strict_mono_on {100, 200} (formatTime sampleEnv)"
    using sampleFormat_mono by (simp add: sampleEnv_def)
  have inA: "\<forall>f \<in> set (FieldName ?req).
      \<forall>p \<in> set (pointsOf (fixedStorage samplePoints) sampleEnv (Inr ()) 0 3600000000000 f).
        Timestamp p \<in> {100, 200}"
    by (auto simp: pointsOf_def GetDataPoints_def fixedStorage_def samplePoints_def)
  from C3_query_rows [OF ok req mono inA]
  have "sorted_wrt (<) (map fst ?rows)" by blast
  then show ?thesis using ok by simp
qed

text \<open>
  C3 as the specification states it, with requested fields only in a row, fails for a field with an
  alias: the request for \<open>heap_alloc\<close> is answered under the key \<open>HeapAlloc\<close>.
\<close>

theorem C3_alias_counterexample:
  "GetServiceMetricsFromStorage (fixedStorage samplePoints) sampleEnv (Inr ())
       (sampleRequest [''heap_alloc''])
     = HttpOK [(''1970-01-01T00:03:20Z'', [(''HeapAlloc'', 7)])]
   \<and> ''HeapAlloc'' \<notin> set [''heap_alloc'']"
  by (simp add: GetServiceMetricsFromStorage_def sampleRequest_def sampleEnv_def sampleParse_def
        GetDataPoints_def fixedStorage_def samplePoints_def Unix_def GetHostLabel_def fieldKey_def
        NameMap_def sampleFormat_def Let_def)

section \<open>Properties of the round trip through the storage\<close>

lemma snapshotMetrics_eq:
  "map Metric (snapshotRows sm label ts) = snapshotMetrics sm"
  by (simp add: snapshotMetrics_def snapshotRows_def generateCoreStatsRows_def
      generateLoadStatsRows_def generateCPUStatsRows_def generateMemoryStatsRows_def
      generateNetworkIORows_def generateHealthStatsRows_def mkRow_def Let_def comp_def)

lemma snapshotMetrics_names:
  "snapshotMetrics sm =
     [''goroutines'', ''overall_load_of_service'', ''service_cpu_load'', ''service_memory_load'',
      ''system_cpu_load'', ''system_memory_load'', ''system_disk_load'', ''total_cores'',
      ''cores_used_by_service'', ''cores_used_by_system'', ''total_system_memory'',
      ''memory_used_by_system'', ''memory_used_by_service'', ''available_memory'',
      ''gc_pause_duration'', ''stack_memory_usage'']
     @ map RecordName (RawMemStatsRecordsOf (MemoryStatisticsOf sm))
     @ [''heap_alloc_by_service'', ''heap_alloc_by_system'', ''total_alloc_by_service'',
        ''total_memory_by_os'', ''total_disk_size'', ''bytes_sent'', ''bytes_received'',
        ''service_health_percent'', ''system_health_percent'']"
  by (simp add: snapshotMetrics_def snapshotRows_def generateCoreStatsRows_def
      generateLoadStatsRows_def generateCPUStatsRows_def generateMemoryStatsRows_def
      generateNetworkIORows_def generateHealthStatsRows_def mkRow_def Let_def comp_def)


lemma fieldKey_raw:
  "map fieldKey rawMemStatNames =
     [''alloc'', ''total_alloc'', ''sys'', ''lookups'', ''mallocs'', ''frees'', ''HeapAlloc'',
      ''HeapSys'', ''HeapIdle'', ''HeapInuse'', ''HeapReleased'', ''heap_objects'',
      ''StackInuse'', ''StackSys'', ''MSpanInuse'', ''MSpanSys'', ''MCacheInuse'',
      ''MCacheSys'', ''BuckHashSys'', ''GCSys'', ''OtherSys'', ''next_gc'', ''last_gc'',
      ''PauseTotalNs'', ''NumGC'', ''num_forced_gc'', ''GCCPUFraction'']"
  by (simp add: rawMemStatNames_def fieldKey_def NameMap_def)


lemma fieldKey_fixed:
  "map fieldKey
     [''goroutines'', ''overall_load_of_service'', ''service_cpu_load'', ''service_memory_load'',
      ''system_cpu_load'', ''system_memory_load'', ''system_disk_load'', ''total_cores'',
      ''cores_used_by_service'', ''cores_used_by_system'', ''total_system_memory'',
      ''memory_used_by_system'', ''memory_used_by_service'', ''available_memory'',
      ''gc_pause_duration'', ''stack_memory_usage''] =
     [''goroutines'', ''overall_load_of_service'', ''service_cpu_load'', ''service_memory_load'',
      ''system_cpu_load'', ''system_memory_load'', ''system_disk_load'', ''total_cores'',
      ''cores_used_by_service'', ''cores_used_by_system'', ''total_system_memory'',
      ''memory_used_by_system'', ''memory_used_by_service'', ''available_memory'',
      ''gc_pause_duration'', ''stack_memory_usage'']"
  "map fieldKey
     [''heap_alloc_by_service'', ''heap_alloc_by_system'', ''total_alloc_by_service'',
      ''total_memory_by_os'', ''total_disk_size'', ''bytes_sent'', ''bytes_received'',
      ''service_health_percent'', ''system_health_percent''] =
     [''heap_alloc_by_service'', ''heap_alloc_by_system'', ''total_alloc_by_service'',
      ''total_memory_by_os'', ''total_disk_size'', ''bytes_sent'', ''bytes_received'',
      ''service_health_percent'', ''system_health_percent'']"
  by (simp_all add: fieldKey_def NameMap_def)

text \<open>
  The snapshots the collector builds have such names: their raw memory records are
  those of \<^verbatim>\<open>ConstructRawMemStats\<close>, or none when the memory statistics failed.
\<close>

lemma collected_names_distinct:
  assumes "map RecordName (RawMemStatsRecordsOf (MemoryStatisticsOf sm)) = rawMemStatNames
         \<or> RawMemStatsRecordsOf (MemoryStatisticsOf sm) = []"
  shows "distinct (map fieldKey (snapshotMetrics sm))"
proof -
  have a: "map fieldKey (map RecordName (RawMemStatsRecordsOf (MemoryStatisticsOf sm)))
             = map fieldKey rawMemStatNames
         \<or> map fieldKey (map RecordName (RawMemStatsRecordsOf (MemoryStatisticsOf sm))) = []"
    using assms by (metis list.simps(8))
  have k: "map fieldKey (snapshotMetrics sm) =
     map fieldKey [''goroutines'', ''overall_load_of_service'', ''service_cpu_load'', ''service_memory_load'',
      ''system_cpu_load'', ''system_memory_load'', ''system_disk_load'', ''total_cores'',
      ''cores_used_by_service'', ''cores_used_by_system'', ''total_system_memory'',
      ''memory_used_by_system'', ''memory_used_by_service'', ''available_memory'',
      ''gc_pause_duration'', ''stack_memory_usage'']
     @ map fieldKey (map RecordName (RawMemStatsRecordsOf (MemoryStatisticsOf sm)))
     @ map fieldKey [''heap_alloc_by_service'', ''heap_alloc_by_system'', ''total_alloc_by_service'',
        ''total_memory_by_os'', ''total_disk_size'', ''bytes_sent'', ''bytes_received'',
        ''service_health_percent'', ''system_health_percent'']"
    by (simp only: snapshotMetrics_names map_append)
  from a show ?thesis
  proof
    assume "map fieldKey (map RecordName (RawMemStatsRecordsOf (MemoryStatisticsOf sm)))
             = map fieldKey rawMemStatNames"
    then show ?thesis
      unfolding k fieldKey_fixed by (simp only: fieldKey_raw) simp
  next
    assume "map fieldKey (map RecordName (RawMemStatsRecordsOf (MemoryStatisticsOf sm))) = []"
    then show ?thesis
      unfolding k fieldKey_fixed by (simp only:) simp
  qed
qed


lemma snapshotRows_shape:
  "row \<in> set (snapshotRows sm label ts) \<Longrightarrow>
     Labels row = [label] \<and> Timestamp (RowDataPoint row) = ts"
  by (auto simp: snapshotRows_def generateCoreStatsRows_def
      generateLoadStatsRows_def generateCPUStatsRows_def generateMemoryStatsRows_def
      generateNetworkIORows_def generateHealthStatsRows_def mkRow_def Let_def)

lemma collectFields_total:
  assumes "\<And>f. \<exists>dps. GetDataPoints sto inst f [label] start end = Inr dps"
  shows "\<exists>m'. collectFields sto inst label start end fs m = Inr m'"
proof (induction fs arbitrary: m)
  case Nil
  then show ?case by simp
next
  case (Cons f fs)
  obtain dps where "GetDataPoints sto inst f [label] start end = Inr dps"
    using assms by blast
  then show ?case using Cons.IH by simp
qed

lemma map_of_single_value:
  assumes "x \<in> fst ` set xs" and "\<And>b. (x, b) \<in> set xs \<Longrightarrow> b = v"
  shows "map_of xs x = Some v"
proof -
  obtain b where "map_of xs x = Some b"
    using assms(1) by (cases "map_of xs x") (auto simp: map_of_eq_None_iff)
  then show ?thesis using assms(2) by (auto dest: map_of_SomeD)
qed

lemma single_key:
  assumes "distinct (map fst m)" and "fst ` set m = {t}"
  shows "\<exists>vs. m = [(t, vs)]"
proof (cases m)
  case Nil
  then show ?thesis using assms(2) by simp
next
  case (Cons a rest)
  have a: "fst a = t" using assms(2) Cons by auto
  have "rest = []"
  proof (cases rest)
    case Nil
    then show ?thesis .
  next
    case (Cons b rest')
    then have "fst b = t" using assms(2) \<open>m = a # rest\<close> by auto
    then show ?thesis using assms(1) a Cons \<open>m = a # rest\<close> by simp
  qed
  then show ?thesis using Cons a by (cases a) auto
qed

lemma Unix_mono: "a \<le> b \<Longrightarrow> Unix a \<le> Unix b"
  by (simp add: Unix_def zdiv_mono1)


text \<open>
  C2, as the code has it. Storing a snapshot appends its rows, one per metric name, all
  with the host label and with the seconds of the current time as their timestamp.
  Take a storage with no point of this host in the window, a snapshot whose metric
  names stay distinct under the aliases of \<open>NameMap\<close>, and a request for exactly the
  snapshot's metric names over a window that contains the timestamp. Then the query
  returns exactly one row, whose time is the rendered timestamp of the snapshot and
  whose mapping holds, under the key of every written field (its alias, or else its
  name), the written value, and nothing else.
\<close>

theorem C2_round_trip:
  assumes loc: "locationLoads env"
      and post: "Method r = ''POST''"
      and req: "Body r = Some req" "parseTime env (StartTime req) = Some startTime"
               "parseTime env (EndTime req) = Some endTime"
      and fields: "set (FieldName req) = set (snapshotMetrics sm)"
      and names: "distinct (map fieldKey (snapshotMetrics sm))"
      and window: "Unix startTime \<le> Unix (timeNow env)" "Unix (timeNow env) \<le> Unix endTime"
      and started: "serviceStartTime env \<le> timeNow env"
      and fresh: "\<forall>row \<in> set db. set (Labels row) = {GetHostLabel env} \<longrightarrow>
                     Timestamp (RowDataPoint row) < Unix startTime
                   \<or> Unix endTime < Timestamp (RowDataPoint row)"
  shows "\<exists>db' vs.
        StoreServiceMetrics logStorage env (Inr db) sm = Inr db'
      \<and> db' = db @ snapshotRows sm (GetHostLabel env) (Unix (timeNow env))
      \<and> (\<forall>row \<in> set (snapshotRows sm (GetHostLabel env) (Unix (timeNow env))).
            Labels row = [GetHostLabel env] \<and> Timestamp (RowDataPoint row) = Unix (timeNow env))
      \<and> GetServiceMetricsFromStorage logStorage env (Inr db') r
           = HttpOK [(formatTime env (Unix (timeNow env)), vs)]
      \<and> dom (map_of vs) = fieldKey ` set (snapshotMetrics sm)
      \<and> (\<forall>row \<in> set (snapshotRows sm (GetHostLabel env) (Unix (timeNow env))).
            map_of vs (fieldKey (Metric row)) = Some (Value (RowDataPoint row)))"
proof -
  let ?label = "GetHostLabel env"
  let ?ts = "Unix (timeNow env)"
  let ?rows = "snapshotRows sm ?label ?ts"
  let ?db' = "db @ ?rows"
  let ?lo = "Unix (if startTime < serviceStartTime env then serviceStartTime env else startTime)"
  let ?hi = "Unix endTime"
  let ?pts = "\<lambda>f. map RowDataPoint (filter (\<lambda>row. Metric row = f) ?rows)"
  have store: "StoreServiceMetrics logStorage env (Inr db) sm = Inr ?db'"
    using loc by (simp add: StoreServiceMetrics_def logStorage_def Let_def)
  have shape: "Labels row = [?label] \<and> Timestamp (RowDataPoint row) = ?ts" if "row \<in> set ?rows" for row
    using snapshotRows_shape [OF that] .
  have lo: "Unix startTime \<le> ?lo" "?lo \<le> ?ts"
    using window(1) started by (auto intro: Unix_mono)
  have old: "filter (\<lambda>row. Metric row = f \<and> set (Labels row) = set [?label]
                              \<and> ?lo \<le> Timestamp (RowDataPoint row)
                              \<and> Timestamp (RowDataPoint row) \<le> ?hi) db = []" for f
    using fresh lo(1) by (fastforce simp: filter_empty_conv)
  have new: "filter (\<lambda>row. Metric row = f \<and> set (Labels row) = set [?label]
                              \<and> ?lo \<le> Timestamp (RowDataPoint row)
                              \<and> Timestamp (RowDataPoint row) \<le> ?hi) ?rows
           = filter (\<lambda>row. Metric row = f) ?rows" for f
    using shape lo(2) window(2) by (intro filter_cong) auto
  have sel: "GetDataPoints logStorage (Inr ?db') f [?label] ?lo ?hi = Inr (?pts f)" for f
    by (simp add: GetDataPoints_def logStorage_def old new del: set_simps)
  then have pts: "pointsOf logStorage env (Inr ?db') startTime endTime = ?pts"
    by (simp add: pointsOf_def fun_eq_iff)
  obtain m where m: "collectFields logStorage (Inr ?db') ?label ?lo ?hi (FieldName req) [] = Inr m"
    using collectFields_total [of logStorage "Inr ?db'" ?label ?lo ?hi "FieldName req" "[]"] sel
    by blast
  let ?W = "allWrites ?pts (FieldName req)"
  have "(\<lambda>f. case GetDataPoints logStorage (Inr ?db') f [?label] ?lo ?hi of
               Inl e \<Rightarrow> [] | Inr dps \<Rightarrow> dps) = ?pts"
    by (simp add: sel)
  then have filed: "filed m" and val: "\<And>x. valueAt m x = map_of (rev ?W) x"
    using collectFields_spec [OF m]
    by (auto simp: filed_def valueAt_def split: option.splits)
  have dist: "distinct (map fst m)" using filed by (simp add: filed_def)
  have W: "set ?W = {((Timestamp p, fieldKey f), Value p) | f p.
             f \<in> set (FieldName req) \<and> p \<in> set (?pts f)}"
    by (simp add: set_allWrites)
  have Wrows: "\<exists>row \<in> set ?rows. t = ?ts \<and> k = fieldKey (Metric row) \<and> v = Value (RowDataPoint row)"
    if "((t, k), v) \<in> set ?W" for t k v
    using that shape unfolding W by auto
  have inW: "((?ts, fieldKey (Metric row)), Value (RowDataPoint row)) \<in> set ?W"
    if "row \<in> set ?rows" for row
  proof -
    have "Metric row \<in> set (FieldName req)"
      using that fields snapshotMetrics_eq [of sm ?label ?ts] by (metis image_eqI set_map)
    moreover have "RowDataPoint row \<in> set (?pts (Metric row))" using that by simp
    ultimately show ?thesis unfolding W using shape [OF that] by force
  qed
  have inj: "row' = row"
    if "row \<in> set ?rows" "row' \<in> set ?rows" "fieldKey (Metric row') = fieldKey (Metric row)"
    for row row'
  proof -
    have "distinct (map (fieldKey \<circ> Metric) ?rows)"
      using names snapshotMetrics_eq [of sm ?label ?ts, symmetric] by (simp add: comp_def)
    then have "inj_on (fieldKey \<circ> Metric) (set ?rows)" by (simp add: distinct_map)
    then show ?thesis using that by (simp add: inj_on_def)
  qed
  have rowval: "map_of (rev ?W) (?ts, fieldKey (Metric row)) = Some (Value (RowDataPoint row))"
    if "row \<in> set ?rows" for row
  proof (rule map_of_single_value)
    show "(?ts, fieldKey (Metric row)) \<in> fst ` set (rev ?W)"
      using inW [OF that] by force
  next
    fix b assume "((?ts, fieldKey (Metric row)), b) \<in> set (rev ?W)"
    then have "((?ts, fieldKey (Metric row)), b) \<in> set ?W" by simp
    from Wrows [OF this] obtain row' where "row' \<in> set ?rows" "fieldKey (Metric row) = fieldKey (Metric row')"
        "b = Value (RowDataPoint row')"
      by blast
    then show "b = Value (RowDataPoint row)" using inj [OF that, of row'] by simp
  qed
  have keys: "fst ` set m = {?ts}"
  proof
    show "fst ` set m \<subseteq> {?ts}"
    proof
      fix t assume "t \<in> fst ` set m"
      then obtain vs where tv: "(t, vs) \<in> set m" by auto
      then have "vs \<noteq> []" using filed by (auto simp: filed_def list_all_iff)
      then obtain k v where kv: "map_of vs k = Some v"
        by (cases vs) (auto split: if_splits, metis)
      have "valueAt m (t, k) = Some v" using tv dist kv by (simp add: valueAt_def)
      then have "((t, k), v) \<in> set ?W" using val by (auto dest: map_of_SomeD)
      then show "t \<in> {?ts}" using Wrows by blast
    qed
  next
    have "mkRow ''goroutines'' ?ts (float64_of_int (Goroutines (CoreStatisticsOf sm))) ?label \<in> set ?rows"
      by (simp add: snapshotRows_def generateCoreStatsRows_def)
    from rowval [OF this] have "valueAt m (?ts, fieldKey ''goroutines'') \<noteq> None"
      using val by (simp add: mkRow_def)
    then have "?ts \<in> fst ` set m"
      by (auto simp: valueAt_def split: option.splits dest!: map_of_SomeD intro: rev_image_eqI)
    then show "{?ts} \<subseteq> fst ` set m" by simp
  qed
  obtain vs where vs: "m = [(?ts, vs)]" using single_key [OF dist keys] by blast
  have look: "map_of vs k = map_of (rev ?W) (?ts, k)" for k
    using val [of "(?ts, k)"] by (simp add: vs valueAt_def)
  have handler: "GetServiceMetricsFromStorage logStorage env (Inr ?db') r
           = HttpOK [(formatTime env ?ts, vs)]"
    using post req m by (simp add: GetServiceMetricsFromStorage_def Let_def vs)
  have domvs: "dom (map_of vs) = fieldKey ` set (snapshotMetrics sm)"
  proof
    show "dom (map_of vs) \<subseteq> fieldKey ` set (snapshotMetrics sm)"
    proof
      fix k assume "k \<in> dom (map_of vs)"
      then obtain v where "map_of (rev ?W) (?ts, k) = Some v" using look by auto
      then have "((?ts, k), v) \<in> set ?W" by (auto dest: map_of_SomeD)
      then obtain row where "row \<in> set ?rows" "k = fieldKey (Metric row)" using Wrows by blast
      then show "k \<in> fieldKey ` set (snapshotMetrics sm)"
        using snapshotMetrics_eq [of sm ?label ?ts, symmetric] by auto
    qed
  next
    show "fieldKey ` set (snapshotMetrics sm) \<subseteq> dom (map_of vs)"
    proof
      fix k assume "k \<in> fieldKey ` set (snapshotMetrics sm)"
      then obtain row where "row \<in> set ?rows" "k = fieldKey (Metric row)"
        using snapshotMetrics_eq [of sm ?label ?ts, symmetric] by auto
      then show "k \<in> dom (map_of vs)" using rowval look by auto
    qed
  qed
  show ?thesis
    using store shape handler domvs rowval look by auto
qed


lemma sample_metrics:
  "snapshotMetrics sampleSnapshot =
     [''goroutines'', ''overall_load_of_service'', ''service_cpu_load'', ''service_memory_load'',
      ''system_cpu_load'', ''system_memory_load'', ''system_disk_load'', ''total_cores'',
      ''cores_used_by_service'', ''cores_used_by_system'', ''total_system_memory'',
      ''memory_used_by_system'', ''memory_used_by_service'', ''available_memory'',
      ''gc_pause_duration'', ''stack_memory_usage'', ''heap_alloc'', ''mallocs'',
      ''heap_alloc_by_service'', ''heap_alloc_by_system'', ''total_alloc_by_service'',
      ''total_memory_by_os'', ''total_disk_size'', ''bytes_sent'', ''bytes_received'',
      ''service_health_percent'', ''system_health_percent'']"
  by (simp add: snapshotMetrics_names sampleSnapshot_def)

lemma sample_rows:
  "snapshotRows sampleSnapshot l ts =
     map (\<lambda>(n, v). mkRow n ts v l)
     [(''goroutines'', 8), (''overall_load_of_service'', 20), (''service_cpu_load'', 30),
      (''service_memory_load'', 10), (''system_cpu_load'', 40), (''system_memory_load'', 50),
      (''system_disk_load'', 60), (''total_cores'', 4), (''cores_used_by_service'', 1),
      (''cores_used_by_system'', 2), (''total_system_memory'', 16), (''memory_used_by_system'', 9),
      (''memory_used_by_service'', 3), (''available_memory'', 7), (''gc_pause_duration'', 1),
      (''stack_memory_usage'', 2), (''heap_alloc'', 2), (''mallocs'', 9),
      (''heap_alloc_by_service'', 11), (''heap_alloc_by_system'', 12), (''total_alloc_by_service'', 13),
      (''total_memory_by_os'', 14), (''total_disk_size'', 70), (''bytes_sent'', 5), (''bytes_received'', 6),
      (''service_health_percent'', 90), (''system_health_percent'', 80)]"
  by (simp add: snapshotRows_def generateCoreStatsRows_def
      generateLoadStatsRows_def generateCPUStatsRows_def generateMemoryStatsRows_def
      generateNetworkIORows_def generateHealthStatsRows_def Let_def sampleSnapshot_def
      float64_of_int_def float64_of_uint64_def)

theorem C2_round_trip_witness:
  "\<exists>vs. roundTrip sampleEnv sampleSnapshot (sampleRequest (snapshotMetrics sampleSnapshot))
           = HttpOK [(''1970-01-01T00:03:20Z'', vs)]
        \<and> map_of vs ''goroutines'' = Some 8
        \<and> map_of vs ''HeapAlloc'' = Some 2"
proof -
  let ?r = "sampleRequest (snapshotMetrics sampleSnapshot)"
  let ?req = "\<lparr>FieldName = snapshotMetrics sampleSnapshot,
               StartTime = ''1970-01-01T00:00:00Z'', EndTime = ''1970-01-01T01:00:00Z''\<rparr>"
  let ?label = "GetHostLabel sampleEnv"
  have loc: "locationLoads sampleEnv" by (simp add: sampleEnv_def)
  have post: "Method ?r = ''POST''" by (simp add: sampleRequest_def)
  have req: "Body ?r = Some ?req" "parseTime sampleEnv (StartTime ?req) = Some 0"
      "parseTime sampleEnv (EndTime ?req) = Some 3600000000000"
    by (simp_all add: sampleRequest_def sampleEnv_def sampleParse_def)
  have fields: "set (FieldName ?req) = set (snapshotMetrics sampleSnapshot)" by simp
  have names: "distinct (map fieldKey (snapshotMetrics sampleSnapshot))"
    by (simp add: sample_metrics fieldKey_def NameMap_def)
  have ts: "Unix (timeNow sampleEnv) = 200" by (simp add: Unix_def sampleEnv_def)
  have window: "Unix 0 \<le> Unix (timeNow sampleEnv)" "Unix (timeNow sampleEnv) \<le> Unix 3600000000000"
    by (simp_all add: ts) (simp_all add: Unix_def)
  have started: "serviceStartTime sampleEnv \<le> timeNow sampleEnv" by (simp add: sampleEnv_def)
  have fresh: "\<forall>row \<in> set []. set (Labels row) = {GetHostLabel sampleEnv} \<longrightarrow>
                     Timestamp (RowDataPoint row) < Unix 0
                   \<or> Unix 3600000000000 < Timestamp (RowDataPoint row)"
    by simp
  obtain db' vs where r:
      "StoreServiceMetrics logStorage sampleEnv (Inr []) sampleSnapshot = Inr db'"
      "GetServiceMetricsFromStorage logStorage sampleEnv (Inr db') ?r
           = HttpOK [(formatTime sampleEnv (Unix (timeNow sampleEnv)), vs)]"
      "\<forall>row \<in> set (snapshotRows sampleSnapshot ?label (Unix (timeNow sampleEnv))).
            map_of vs (fieldKey (Metric row)) = Some (Value (RowDataPoint row))"
    using C2_round_trip [OF loc post req fields names window started fresh] by blast
  have a: "mkRow ''goroutines'' 200 8 ?label \<in> set (snapshotRows sampleSnapshot ?label 200)"
          "mkRow ''heap_alloc'' 200 2 ?label \<in> set (snapshotRows sampleSnapshot ?label 200)"
    by (simp_all add: sample_rows)
  have k: "fieldKey ''goroutines'' = ''goroutines''" "fieldKey ''heap_alloc'' = ''HeapAlloc''"
    by (simp_all add: fieldKey_def NameMap_def)
  have "map_of vs ''goroutines'' = Some 8" "map_of vs ''HeapAlloc'' = Some 2"
    using r(3) [unfolded ts, rule_format, OF a(1)] r(3) [unfolded ts, rule_format, OF a(2)]
    by (simp_all add: mkRow_def k)
  moreover have "roundTrip sampleEnv sampleSnapshot ?r = HttpOK [(''1970-01-01T00:03:20Z'', vs)]"
    using r(1,2) by (simp add: roundTrip_def ts) (simp add: sampleEnv_def sampleFormat_def)
  ultimately show ?thesis by blast
qed

text \<open>
  C2 as the specification states it, with the row's mapping equal to the written values, fails for a
  field with an alias: the value written as \<open>heap_alloc\<close> comes back under
  \<open>HeapAlloc\<close>, and the row has no key \<open>heap_alloc\<close>.
\<close>

theorem C2_alias_counterexample:
  "roundTrip sampleEnv sampleSnapshot (sampleRequest (snapshotMetrics sampleSnapshot))
     = HttpOK [(''1970-01-01T00:03:20Z'', sampleAnswer)]
   \<and> mkRow ''heap_alloc'' 200 2 (GetHostLabel sampleEnv)
       \<in> set (snapshotRows sampleSnapshot (GetHostLabel sampleEnv) 200)
   \<and> map_of sampleAnswer ''heap_alloc'' = None
   \<and> map_of sampleAnswer ''HeapAlloc'' = Some 2"
proof -
  have "roundTrip sampleEnv sampleSnapshot (sampleRequest (snapshotMetrics sampleSnapshot))
     = HttpOK [(''1970-01-01T00:03:20Z'', sampleAnswer)]"
    by (simp add: roundTrip_def StoreServiceMetrics_def sample_metrics sample_rows
        GetServiceMetricsFromStorage_def sampleRequest_def sampleEnv_def sampleParse_def
        GetDataPoints_def logStorage_def Unix_def GetHostLabel_def fieldKey_def
        NameMap_def sampleFormat_def Let_def mkRow_def sampleAnswer_def)
  moreover have "mkRow ''heap_alloc'' 200 2 (GetHostLabel sampleEnv)
       \<in> set (snapshotRows sampleSnapshot (GetHostLabel sampleEnv) 200)"
    by (simp add: sample_rows)
  moreover have "map_of sampleAnswer ''heap_alloc'' = None" "map_of sampleAnswer ''HeapAlloc'' = Some 2"
    by (simp_all add: sampleAnswer_def)
  ultimately show ?thesis by simp
qed

end
